theory Spec2Isabelle
  imports
    Complex_Main
    "HOL-Library.AList"
    "HOL-Library.Char_ord"
    "HOL-Library.List_Lexorder"
    "HOL-Library.Log_Nat"
begin

section \<open>Strings\<close>

text \<open>
  A Python \<open>str\<close> is modelled as a \<open>string\<close> whose characters are the code points
  below 256 (ASCII and Latin-1). On these, \<open>str.strip()\<close> removes the code points
  9-13, 28-32, 133 and 160 from both ends, \<open>str.lower()\<close> adds 32 to the code points
  of the upper-case letters (65-90, 192-214, 216-222) and keeps every other one, and
  \<open>len\<close> counts characters. Strings compare lexicographically by code point, which is
  the order of \<open>HOL-Library.List_Lexorder\<close> over \<open>HOL-Library.Char_ord\<close>.
\<close>

definition isspace :: "char \<Rightarrow> bool" where
  "isspace c =
     (let n = (of_char c :: nat)
      in (9 \<le> n \<and> n \<le> 13) \<or> (28 \<le> n \<and> n \<le> 32) \<or> n = 133 \<or> n = 160)"

definition lower_char :: "char \<Rightarrow> char" where
  "lower_char c =
     (let n = (of_char c :: nat)
      in if (65 \<le> n \<and> n \<le> 90) \<or> (192 \<le> n \<and> n \<le> 214) \<or> (216 \<le> n \<and> n \<le> 222)
         then char_of (n + 32) else c)"

definition lower :: "string \<Rightarrow> string" where
  "lower s = map lower_char s"

definition strip :: "string \<Rightarrow> string" where
  "strip s = rev (dropWhile isspace (rev (dropWhile isspace s)))"

text \<open>\<open>normalize_site(s)\<close> is \<open>s.strip().lower()\<close>.\<close>

definition normalize_site :: "string \<Rightarrow> string" where
  "normalize_site s = lower (strip s)"

text \<open>Python's \<open>k in s\<close> on strings: \<open>k\<close> occurs in \<open>s\<close> as a contiguous block.\<close>

fun contains :: "string \<Rightarrow> string \<Rightarrow> bool" where
  "contains k [] = (k = [])"
| "contains k (c # s) = (take (length k) (c # s) = k \<or> contains k s)"

text \<open>A name between single quotes, as the f-strings of the messages print it.\<close>

definition quoted :: "string \<Rightarrow> string" where
  "quoted s = CHR 0x27 # s @ [CHR 0x27]"

section \<open>Data model\<close>

text \<open>
  The store is the dictionary \<open>{"metadata": {...}, "entries": {site: {...}}}\<close>. A
  Python dictionary keeps its keys distinct and in insertion order, so \<open>entries\<close> is an
  association list: \<open>map_of\<close> is the lookup, \<open>AList.update\<close> the assignment
  \<open>entries[k] = v\<close> (in place for a key that exists, appended otherwise),
  \<open>AList.map_entry\<close> the assignment to a field of \<open>entries[k]\<close>, \<open>AList.delete\<close> is
  \<open>del entries[k]\<close> and \<open>length\<close> is \<open>len\<close>.
\<close>

record entry =
  username :: string
  password :: string
  last_updated :: string

record metadata =
  version :: int
  created_at :: string
  updated_at :: string
  count :: int

record store =
  metadata :: metadata
  entries :: "(string \<times> entry) list"

text \<open>
  Every failure of the program is \<open>sys.exit(message)\<close>. The constructor is the class
  the specification gives to that exit, its argument the message. \<open>KeyError\<close>,
  \<open>ZeroDivisionError\<close> and \<open>OverflowError\<close> are Python's exceptions for a subscript
  with a missing key and for a division.
\<close>

datatype error =
  ValidationError string
  | DuplicateError string
  | NotFoundError string
  | SchemaError string
  | KeyError string
  | ZeroDivisionError string
  | OverflowError string

text \<open>
  The dictionary \<open>init_store\<close> builds and returns; it reads the clock twice. Writing
  the file and printing are left out.
\<close>

definition init_store :: "string \<Rightarrow> string \<Rightarrow> store" where
  "init_store now1 now2 =
     \<lparr>metadata = \<lparr>version = 1, created_at = now1, updated_at = now2, count = 0\<rparr>,
      entries = []\<rparr>"

text \<open>The well-formedness of the dictionary and the count invariant of the data model.\<close>

definition valid_store :: "store \<Rightarrow> bool" where
  "valid_store st =
     (distinct (map fst (entries st)) \<and> count (metadata st) = int (length (entries st)))"

section \<open>Schema validation\<close>

text \<open>What \<open>json.load\<close> returns: the document before any check.\<close>

datatype json =
  JNull
  | JBool bool
  | JInt int
  | JFloat real
  | JStr string
  | JArr "json list"
  | JObj "(string \<times> json) list"

datatype pytype = PyInt | PyStr

text \<open>\<open>isinstance(v, int)\<close> holds of a \<open>bool\<close> too: \<open>bool\<close> is a subclass of \<open>int\<close>.\<close>

fun isinstance :: "json \<Rightarrow> pytype \<Rightarrow> bool" where
  "isinstance v PyInt = (case v of JInt i \<Rightarrow> True | JBool b \<Rightarrow> True | _ \<Rightarrow> False)"
| "isinstance v PyStr = (case v of JStr s \<Rightarrow> True | _ \<Rightarrow> False)"

fun type_name :: "pytype \<Rightarrow> string" where
  "type_name PyInt = ''int''"
| "type_name PyStr = ''str''"

text \<open>The loop over the required metadata fields (lines 67-72).\<close>

fun check_metadata :: "(string \<times> json) list \<Rightarrow> (string \<times> pytype) list \<Rightarrow> error + unit" where
  "check_metadata meta [] = Inr ()"
| "check_metadata meta ((key, typ) # rest) =
     (case map_of meta key of
        None \<Rightarrow> Inl (SchemaError (''Invalid store schema: metadata missing '' @ quoted key @ ''.''))
      | Some v \<Rightarrow>
          if \<not> isinstance v typ
          then Inl (SchemaError (''Invalid store schema: metadata '' @ quoted key
                                  @ '' must be '' @ type_name typ @ ''.''))
          else check_metadata meta rest)"

text \<open>The inner loop over the required fields of one entry (lines 80-84).\<close>

fun check_fields :: "string \<Rightarrow> (string \<times> json) list \<Rightarrow> (string \<times> pytype) list \<Rightarrow> error + unit" where
  "check_fields site flds [] = Inr ()"
| "check_fields site flds ((key, typ) # rest) =
     (case map_of flds key of
        None \<Rightarrow> Inl (SchemaError (''Invalid store schema: entry '' @ quoted site
                                    @ '' missing '' @ quoted key @ ''.''))
      | Some v \<Rightarrow>
          if \<not> isinstance v typ
          then Inl (SchemaError (''Invalid store schema: '' @ quoted (site @ ''.'' @ key)
                                  @ '' must be '' @ type_name typ @ ''.''))
          else check_fields site flds rest)"

text \<open>
  The loop over \<open>entries.items()\<close> (lines 75-84). The keys of a decoded JSON object are
  strings, so the test of line 76 never fails.
\<close>

fun check_entries :: "(string \<times> json) list \<Rightarrow> error + unit" where
  "check_entries [] = Inr ()"
| "check_entries ((site, v) # rest) =
     (case v of
        JObj flds \<Rightarrow>
          (case check_fields site flds
                  [(''username'', PyStr), (''password'', PyStr), (''last_updated'', PyStr)] of
             Inl e \<Rightarrow> Inl e
           | Inr u \<Rightarrow> check_entries rest)
      | _ \<Rightarrow> Inl (SchemaError (''Invalid store schema: entry for '' @ quoted site
                                 @ '' is not an object.'')))"

text \<open>Python's \<open>v == n\<close> for a decoded value \<open>v\<close> and the integer \<open>n = len(entries)\<close>.\<close>

fun equals_len :: "json \<Rightarrow> nat \<Rightarrow> bool" where
  "equals_len (JInt i) n = (i = int n)"
| "equals_len (JBool b) n = ((if b then 1 else 0) = n)"
| "equals_len (JFloat r) n = (r = real n)"
| "equals_len v n = False"

definition validate_store_schema :: "json \<Rightarrow> error + unit" where
  "validate_store_schema doc =
     (case doc of
        JObj kvs \<Rightarrow>
          (case (map_of kvs ''metadata'', map_of kvs ''entries'') of
             (Some meta, Some ents) \<Rightarrow>
               (case (meta, ents) of
                  (JObj m, JObj es) \<Rightarrow>
                    (case check_metadata m
                            [(''version'', PyInt), (''created_at'', PyStr),
                             (''updated_at'', PyStr), (''count'', PyInt)] of
                       Inl e \<Rightarrow> Inl e
                     | Inr u \<Rightarrow>
                         (case check_entries es of
                            Inl e \<Rightarrow> Inl e
                          | Inr u \<Rightarrow>
                              (case map_of m ''count'' of
                                 None \<Rightarrow> Inl (KeyError ''count'')
                               | Some c \<Rightarrow>
                                   if \<not> equals_len c (length es)
                                   then Inl (SchemaError
                                     ''Invalid store schema: metadata.count does not match number of entries.'')
                                   else Inr ())))
                | _ \<Rightarrow> Inl (SchemaError
                    (''Invalid store schema: '' @ quoted ''metadata'' @ '' or ''
                       @ quoted ''entries'' @ '' is not an object.'')))
           | _ \<Rightarrow> Inl (SchemaError
               (''Invalid store schema: missing '' @ quoted ''metadata'' @ '' or ''
                  @ quoted ''entries'' @ ''.'')))
      | _ \<Rightarrow> Inl (SchemaError ''Invalid store schema: top-level is not an object.''))"

text \<open>The document that \<open>json.load\<close> returns for a store written by \<open>json.dump\<close>.\<close>

definition entry_json :: "entry \<Rightarrow> json" where
  "entry_json r =
     JObj [(''username'', JStr (username r)), (''password'', JStr (password r)),
           (''last_updated'', JStr (last_updated r))]"

definition metadata_json :: "metadata \<Rightarrow> json" where
  "metadata_json m =
     JObj [(''version'', JInt (version m)), (''created_at'', JStr (created_at m)),
           (''updated_at'', JStr (updated_at m)), (''count'', JInt (count m))]"

definition store_json :: "store \<Rightarrow> json" where
  "store_json st =
     JObj [(''metadata'', metadata_json (metadata st)),
           (''entries'', JObj (map (\<lambda>(site, r). (site, entry_json r)) (entries st)))]"

text \<open>
  What one pass of the loops of lines 67-72 and 80-84 tests of a field, what the
  loop of lines 75-84 tests of an entry, and all the tests of the function together.
\<close>

definition checked_field :: "(string \<times> json) list \<Rightarrow> string \<Rightarrow> pytype \<Rightarrow> bool" where
  "checked_field obj key typ = (case map_of obj key of None \<Rightarrow> False | Some v \<Rightarrow> isinstance v typ)"

definition entry_checked :: "json \<Rightarrow> bool" where
  "entry_checked v =
     (case v of
        JObj flds \<Rightarrow> checked_field flds ''username'' PyStr \<and> checked_field flds ''password'' PyStr
                      \<and> checked_field flds ''last_updated'' PyStr
      | _ \<Rightarrow> False)"

definition checks_pass :: "json \<Rightarrow> bool" where
  "checks_pass doc =
     (case doc of
        JObj kvs \<Rightarrow>
          (case (map_of kvs ''metadata'', map_of kvs ''entries'') of
             (Some (JObj m), Some (JObj es)) \<Rightarrow>
               checked_field m ''version'' PyInt \<and> checked_field m ''created_at'' PyStr
               \<and> checked_field m ''updated_at'' PyStr \<and> checked_field m ''count'' PyInt
               \<and> list_all (\<lambda>(site, v). entry_checked v) es
               \<and> (case map_of m ''count'' of None \<Rightarrow> False | Some c \<Rightarrow> equals_len c (length es))
           | _ \<Rightarrow> False)
      | _ \<Rightarrow> False)"

text \<open>
  The schema that the docstring of \<open>validate_store_schema\<close> and the checks (a) to (d)
  of the specification describe, written out on the decoded values and without the
  functions of the program: the top level, \<open>metadata\<close> and \<open>entries\<close> are objects;
  \<open>version\<close> and \<open>count\<close> are integers, \<open>created_at\<close> and \<open>updated_at\<close> strings;
  every entry is an object whose \<open>username\<close>, \<open>password\<close> and \<open>last_updated\<close> are
  strings, empty or not; and the value of \<open>count\<close> is the number of entries. An
  integer is a JSON integer or a JSON boolean: in Python \<open>bool\<close> is a subclass of
  \<open>int\<close>, \<open>True\<close> is 1 and \<open>False\<close> is 0. This is the statement that the function is
  compared with, not a part of the program.
\<close>

definition integer_value :: "json \<Rightarrow> int option" where
  "integer_value v =
     (case v of JInt i \<Rightarrow> Some i | JBool b \<Rightarrow> Some (if b then 1 else 0) | _ \<Rightarrow> None)"

definition string_value :: "json \<Rightarrow> string option" where
  "string_value v = (case v of JStr s \<Rightarrow> Some s | _ \<Rightarrow> None)"

definition integer_field :: "(string \<times> json) list \<Rightarrow> string \<Rightarrow> bool" where
  "integer_field obj key =
     (case map_of obj key of None \<Rightarrow> False | Some v \<Rightarrow> integer_value v \<noteq> None)"

definition string_field :: "(string \<times> json) list \<Rightarrow> string \<Rightarrow> bool" where
  "string_field obj key =
     (case map_of obj key of None \<Rightarrow> False | Some v \<Rightarrow> string_value v \<noteq> None)"

definition entry_ok :: "json \<Rightarrow> bool" where
  "entry_ok v =
     (case v of
        JObj flds \<Rightarrow> string_field flds ''username'' \<and> string_field flds ''password''
                      \<and> string_field flds ''last_updated''
      | _ \<Rightarrow> False)"

definition schema_ok :: "json \<Rightarrow> bool" where
  "schema_ok doc =
     (case doc of
        JObj kvs \<Rightarrow>
          (case (map_of kvs ''metadata'', map_of kvs ''entries'') of
             (Some (JObj m), Some (JObj es)) \<Rightarrow>
               integer_field m ''version'' \<and> string_field m ''created_at''
               \<and> string_field m ''updated_at'' \<and> integer_field m ''count''
               \<and> list_all (\<lambda>(site, v). entry_ok v) es
               \<and> (case map_of m ''count'' of
                     None \<Rightarrow> False
                   | Some c \<Rightarrow> integer_value c = Some (int (length es)))
           | _ \<Rightarrow> False)
      | _ \<Rightarrow> False)"

section \<open>The store engine\<close>

text \<open>
  A mutating operation works on the dictionary in place and either returns or leaves
  through \<open>sys.exit\<close>. Its result is \<open>Inr\<close> the store it returns with, or \<open>Inl\<close> the
  error together with the store as the call left it. The values that the successive
  calls of \<open>now_iso()\<close> return are arguments, in the order of the calls.
\<close>

definition add_entry ::
  "string \<Rightarrow> string \<Rightarrow> store \<Rightarrow> string option \<Rightarrow> string \<Rightarrow> string \<Rightarrow> (error \<times> store) + store" where
  "add_entry now1 now2 st site usr pwd =
     (case site of
        None \<Rightarrow> Inl (ValidationError ''add: site is required.'', st)
      | Some s \<Rightarrow>
          (let site_key = normalize_site s
           in if usr = [] \<or> pwd = []
              then Inl (ValidationError ''add: username and password cannot be empty.'', st)
              else if map_of (entries st) site_key \<noteq> None
              then Inl (DuplicateError (''add: entry for '' @ quoted site_key
                          @ '' already exists. Use '' @ quoted ''update'' @ '' instead.''), st)
              else
                (let es = AList.update site_key
                            \<lparr>username = usr, password = pwd, last_updated = now1\<rparr> (entries st)
                 in Inr (st\<lparr>entries := es,
                            metadata := (metadata st)\<lparr>count := int (length es),
                                                       updated_at := now2\<rparr>\<rparr>))))"

definition get_entry :: "store \<Rightarrow> string option \<Rightarrow> error + entry option" where
  "get_entry st site =
     (case site of
        None \<Rightarrow> Inl (ValidationError ''get: site is required.'')
      | Some s \<Rightarrow> Inr (map_of (entries st) (normalize_site s)))"

text \<open>The block \<open>if username is not None: ...\<close> of \<open>update_entry\<close> (lines 156-159).\<close>

definition apply_username :: "store \<Rightarrow> string \<Rightarrow> string option \<Rightarrow> (error \<times> store) + store" where
  "apply_username st site_key usr =
     (case usr of
        None \<Rightarrow> Inr st
      | Some u \<Rightarrow>
          if u = [] then Inl (ValidationError ''update: username cannot be empty.'', st)
          else Inr (st\<lparr>entries :=
                 AList.map_entry site_key (\<lambda>r. r\<lparr>username := u\<rparr>) (entries st)\<rparr>))"

text \<open>The block \<open>if password is not None: ...\<close> of \<open>update_entry\<close> (lines 161-164).\<close>

definition apply_password :: "store \<Rightarrow> string \<Rightarrow> string option \<Rightarrow> (error \<times> store) + store" where
  "apply_password st site_key pwd =
     (case pwd of
        None \<Rightarrow> Inr st
      | Some p \<Rightarrow>
          if p = [] then Inl (ValidationError ''update: password cannot be empty.'', st)
          else Inr (st\<lparr>entries :=
                 AList.map_entry site_key (\<lambda>r. r\<lparr>password := p\<rparr>) (entries st)\<rparr>))"

definition update_entry ::
  "string \<Rightarrow> string \<Rightarrow> store \<Rightarrow> string option \<Rightarrow> string option \<Rightarrow> string option
     \<Rightarrow> (error \<times> store) + store" where
  "update_entry now1 now2 st site usr pwd =
     (case site of
        None \<Rightarrow> Inl (ValidationError ''update: site is required.'', st)
      | Some s \<Rightarrow>
          if usr = None \<and> pwd = None
          then Inl (ValidationError
                 ''update: nothing to update (provide --username and/or --password).'', st)
          else
            (let site_key = normalize_site s
             in if map_of (entries st) site_key = None
                then Inl (NotFoundError (''update: no entry found for '' @ quoted site_key @ ''.''), st)
                else
                  (case apply_username st site_key usr of
                     Inl e \<Rightarrow> Inl e
                   | Inr st1 \<Rightarrow>
                       (case apply_password st1 site_key pwd of
                          Inl e \<Rightarrow> Inl e
                        | Inr st2 \<Rightarrow>
                            Inr (st2\<lparr>entries :=
                                       AList.map_entry site_key (\<lambda>r. r\<lparr>last_updated := now1\<rparr>)
                                         (entries st2),
                                     metadata := (metadata st2)\<lparr>updated_at := now2\<rparr>\<rparr>)))))"

definition delete_entry :: "string \<Rightarrow> store \<Rightarrow> string option \<Rightarrow> (error \<times> store) + store" where
  "delete_entry now1 st site =
     (case site of
        None \<Rightarrow> Inl (ValidationError ''delete: site is required.'', st)
      | Some s \<Rightarrow>
          (let site_key = normalize_site s
           in if map_of (entries st) site_key = None
              then Inl (NotFoundError (''delete: no entry found for '' @ quoted site_key @ ''.''), st)
              else
                (let es = AList.delete site_key (entries st)
                 in Inr (st\<lparr>entries := es,
                            metadata := (metadata st)\<lparr>count := int (length es),
                                                       updated_at := now1\<rparr>\<rparr>))))"

text \<open>The store as a call left it, whether it returned or exited.\<close>

definition store_after :: "(error \<times> store) + store \<Rightarrow> store" where
  "store_after res = (case res of Inl (e, st) \<Rightarrow> st | Inr st \<Rightarrow> st)"

text \<open>
  A sequence of engine calls on one store. \<open>clk k\<close> is what the \<open>k\<close>-th call of
  \<open>now_iso()\<close> returns; \<open>add_entry\<close> and \<open>update_entry\<close> read the clock twice,
  \<open>delete_entry\<close> once. The sequence stops at the first call that exits.
\<close>

datatype command =
  Add "string option" string string
  | Update "string option" "string option" "string option"
  | Delete "string option"

fun run :: "(nat \<Rightarrow> string) \<Rightarrow> nat \<Rightarrow> store \<Rightarrow> command list \<Rightarrow> (error \<times> store) + store" where
  "run clk k st [] = Inr st"
| "run clk k st (Add site usr pwd # cs) =
     (case add_entry (clk k) (clk (k + 1)) st site usr pwd of
        Inl e \<Rightarrow> Inl e
      | Inr st' \<Rightarrow> run clk (k + 2) st' cs)"
| "run clk k st (Update site usr pwd # cs) =
     (case update_entry (clk k) (clk (k + 1)) st site usr pwd of
        Inl e \<Rightarrow> Inl e
      | Inr st' \<Rightarrow> run clk (k + 2) st' cs)"
| "run clk k st (Delete site # cs) =
     (case delete_entry (clk k) st site of
        Inl e \<Rightarrow> Inl e
      | Inr st' \<Rightarrow> run clk (k + 1) st' cs)"

section \<open>Read-only queries\<close>

definition search_entries :: "store \<Rightarrow> string option \<Rightarrow> string list" where
  "search_entries st keyword =
     (case keyword of
        None \<Rightarrow> []
      | Some kw \<Rightarrow>
          if kw = [] then []
          else
            (let k = lower kw;
                 hits = map fst (filter (\<lambda>(site, r). contains k (lower site)
                                           \<or> contains k (lower (username r))) (entries st))
             in sort hits))"

text \<open>
  \<open>min\<close> and \<open>max\<close> of a list, which raise \<open>ValueError\<close> on the empty one (\<open>None\<close>
  here); \<open>stats\<close> calls them on a list that is not empty.
\<close>

fun minimum :: "string list \<Rightarrow> string option" where
  "minimum [] = None"
| "minimum (x # xs) = Some (fold min xs x)"

fun maximum :: "string list \<Rightarrow> string option" where
  "maximum [] = None"
| "maximum (x # xs) = Some (fold max xs x)"

text \<open>
  Python's \<open>a / b\<close> on two integers that are not negative. It raises
  \<open>ZeroDivisionError\<close> for \<open>b = 0\<close>; otherwise it returns the float (an IEEE 754
  binary64 value) nearest to the quotient, a tie going to the even significand, and
  raises \<open>OverflowError\<close> when that value would be \<open>2 ^ 1024\<close> or more. A float is
  modelled as the real number it denotes. \<open>binary_exponent a b\<close> is the \<open>e\<close> with
  \<open>2 ^ e \<le> a / b < 2 ^ (e + 1)\<close>; the floats of that binade are the multiples of
  \<open>2 ^ (e - 52)\<close>, and below \<open>2 ^ -1022\<close> (the subnormal floats) the multiples of
  \<open>2 ^ -1074\<close>. \<open>round_half_even num den\<close> is the integer nearest to \<open>num / den\<close>.
\<close>

definition round_half_even :: "int \<Rightarrow> int \<Rightarrow> int" where
  "round_half_even num den =
     (let f = num div den; r = num mod den
      in if 2 * r < den then f
         else if den < 2 * r then f + 1
         else if even f then f else f + 1)"

definition binary_exponent :: "nat \<Rightarrow> nat \<Rightarrow> int" where
  "binary_exponent a b =
     (if b \<le> a then int (floorlog 2 (a div b)) - 1
      else - int (floorlog 2 ((b - 1) div a)))"

definition int_truediv :: "nat \<Rightarrow> nat \<Rightarrow> error + real" where
  "int_truediv a b =
     (if b = 0 then Inl (ZeroDivisionError ''division by zero'')
      else if a = 0 then Inr 0
      else
        (let e = max (binary_exponent a b) (- 1022);
             n = (if e \<le> 52 then round_half_even (int a * 2 ^ nat (52 - e)) (int b)
                  else round_half_even (int a) (int b * 2 ^ nat (e - 52)));
             r = real_of_int n * 2 powi (e - 52)
         in if 2 ^ 1024 \<le> r
            then Inl (OverflowError ''integer division result too large for a float'')
            else Inr r))"

text \<open>
  The finite values of the binary64 format: a significand below \<open>2 ^ 53\<close> in absolute
  value, times a power of two between \<open>2 ^ -1074\<close> and \<open>2 ^ 971\<close>. This is the
  format as IEEE 754 defines it, the statement that \<open>int_truediv\<close> is compared with.
\<close>

definition is_double :: "real \<Rightarrow> bool" where
  "is_double y =
     (\<exists>k j. \<bar>k\<bar> < 2 ^ 53 \<and> - 1074 \<le> j \<and> j \<le> 971 \<and> y = real_of_int k * 2 powi j)"

text \<open>
  The dictionary that \<open>stats\<close> returns, \<open>avg_password_length\<close> being the float of
  line 260. The division is the one call of \<open>stats\<close> that can raise.
\<close>

record statistics =
  entry_count :: nat
  oldest :: "string option"
  newest :: "string option"
  avg_password_length :: real

definition stats :: "store \<Rightarrow> error + statistics" where
  "stats st =
     (let total = length (entries st)
      in if total = 0
         then Inr \<lparr>entry_count = 0, oldest = None, newest = None, avg_password_length = 0\<rparr>
         else
           (let times = map (\<lambda>(site, r). last_updated r) (entries st);
                pw_lengths = map (\<lambda>(site, r). length (password r)) (entries st)
            in case int_truediv (sum_list pw_lengths) (length pw_lengths) of
                 Inl e \<Rightarrow> Inl e
               | Inr avg_len \<Rightarrow>
                   Inr \<lparr>entry_count = total, oldest = minimum times, newest = maximum times,
                        avg_password_length = avg_len\<rparr>))"

section \<open>Examples\<close>

text \<open>A clock that stands still, and a store with one entry.\<close>

definition fixed_clock :: "nat \<Rightarrow> string" where
  "fixed_clock k = ''2025-09-05T09:30:00Z''"

definition example_store :: store where
  "example_store =
     \<lparr>metadata = \<lparr>version = 1, created_at = ''2025-09-04T14:00:00Z'',
                   updated_at = ''2025-09-04T14:00:00Z'', count = 1\<rparr>,
      entries = [(''example.com'', \<lparr>username = ''alice'', password = ''secret'',
                                    last_updated = ''2025-09-04T14:00:00Z''\<rparr>)]\<rparr>"

definition example_commands :: "command list" where
  "example_commands =
     [Add (Some ''GitHub.com'') ''al'' ''hunter2'',
      Update (Some '' EXAMPLE.com'') (Some ''carol'') None,
      Delete (Some ''GitHub.com ''),
      Add (Some ''gitlab.com'') ''bob'' ''pw'']"

text \<open>The two entries of the specification's search example, the later one first.\<close>

definition search_store :: store where
  "search_store =
     \<lparr>metadata = \<lparr>version = 1, created_at = ''2025-09-03T08:00:00Z'',
                   updated_at = ''2025-09-04T14:00:00Z'', count = 2\<rparr>,
      entries = [(''gitlab.com'', \<lparr>username = ''bob'', password = ''pw'',
                                   last_updated = ''2025-09-04T14:00:00Z''\<rparr>),
                 (''github.com'', \<lparr>username = ''al'', password = ''hunter2'',
                                   last_updated = ''2025-09-03T08:00:00Z''\<rparr>)]\<rparr>"

text \<open>A decoded store file whose one record has the empty string as its user name.\<close>

definition empty_username_document :: json where
  "empty_username_document =
     JObj [(''metadata'',
              JObj [(''version'', JInt 1), (''created_at'', JStr ''2025-09-04T14:00:00Z''),
                    (''updated_at'', JStr ''2025-09-04T14:00:00Z''), (''count'', JInt 1)]),
           (''entries'',
              JObj [(''example.com'',
                       JObj [(''username'', JStr []), (''password'', JStr ''secret''),
                             (''last_updated'', JStr ''2025-09-04T14:00:00Z'')])])]"

text \<open>A decoded store file whose \<open>version\<close> and \<open>count\<close> are the JSON value \<open>true\<close>.\<close>

definition boolean_count_document :: json where
  "boolean_count_document =
     JObj [(''metadata'',
              JObj [(''version'', JBool True), (''created_at'', JStr ''2025-09-04T14:00:00Z''),
                    (''updated_at'', JStr ''2025-09-04T14:00:00Z''), (''count'', JBool True)]),
           (''entries'',
              JObj [(''example.com'',
                       JObj [(''username'', JStr ''alice''), (''password'', JStr ''secret''),
                             (''last_updated'', JStr ''2025-09-04T14:00:00Z'')])])]"

text \<open>Three entries whose passwords have the lengths 1, 1 and 2.\<close>

definition thirds_store :: store where
  "thirds_store =
     \<lparr>metadata = \<lparr>version = 1, created_at = ''2025-09-03T08:00:00Z'',
                   updated_at = ''2025-09-05T09:30:00Z'', count = 3\<rparr>,
      entries = [(''a.com'', \<lparr>username = ''al'', password = ''x'',
                              last_updated = ''2025-09-04T14:00:00Z''\<rparr>),
                 (''b.com'', \<lparr>username = ''bob'', password = ''y'',
                              last_updated = ''2025-09-03T08:00:00Z''\<rparr>),
                 (''c.com'', \<lparr>username = ''carol'', password = ''zz'',
                              last_updated = ''2025-09-05T09:30:00Z''\<rparr>)]\<rparr>"

section \<open>Association lists as dictionaries\<close>

lemma update_fresh: "map_of al k = None \<Longrightarrow> AList.update k v al = al @ [(k, v)]"
  by (induction al) (auto split: if_splits)

lemma length_map_entry [simp]: "length (AList.map_entry k f al) = length al"
  by (induction al) auto

lemma map_fst_map_entry [simp]: "map fst (AList.map_entry k f al) = map fst al"
  by (induction al) auto

section \<open>The count invariant\<close>

lemma add_entry_valid:
  "valid_store st \<Longrightarrow> add_entry now1 now2 st site usr pwd = Inr st' \<Longrightarrow> valid_store st'"
  by (auto simp: add_entry_def valid_store_def Let_def AList.distinct_update
           split: option.splits if_splits)

lemma delete_entry_valid:
  "valid_store st \<Longrightarrow> delete_entry now1 st site = Inr st' \<Longrightarrow> valid_store st'"
  by (auto simp: delete_entry_def valid_store_def Let_def AList.distinct_delete
           split: option.splits if_splits)

lemma update_entry_Inr:
  "update_entry now1 now2 st site usr pwd = Inr st' \<Longrightarrow>
     map fst (entries st') = map fst (entries st) \<and>
     count (metadata st') = count (metadata st)"
  by (auto simp: update_entry_def apply_username_def apply_password_def Let_def
           split: option.splits if_splits sum.splits)

lemma update_entry_valid:
  "valid_store st \<Longrightarrow> update_entry now1 now2 st site usr pwd = Inr st' \<Longrightarrow> valid_store st'"
  using update_entry_Inr[of now1 now2 st site usr pwd st']
  by (simp add: valid_store_def) (metis length_map)

lemma update_entry_count:
  "count (metadata (store_after (update_entry now1 now2 st site usr pwd))) = count (metadata st)"
  by (auto simp: store_after_def update_entry_def apply_username_def apply_password_def Let_def
           split: option.splits if_splits sum.splits)

text \<open>Every prefix of a sequence that runs to its end runs to its end, on valid stores.\<close>

lemma run_prefix_valid:
  "valid_store st \<Longrightarrow> run clk k st cs = Inr st' \<Longrightarrow>
     \<exists>s. run clk k st (take n cs) = Inr s \<and> valid_store s"
proof (induction cs arbitrary: st k n)
  case Nil
  then show ?case by simp
next
  case (Cons c cs)
  show ?case
  proof (cases n)
    case 0
    with Cons.prems show ?thesis by simp
  next
    case (Suc m)
    show ?thesis
    proof (cases c)
      case (Add site usr pwd)
      with Cons.prems obtain s1 where
        s1: "add_entry (clk k) (clk (k + 1)) st site usr pwd = Inr s1"
        and r: "run clk (k + 2) s1 cs = Inr st'"
        by (auto split: sum.splits)
      from Cons.IH[OF add_entry_valid[OF Cons.prems(1) s1] r, of m] s1 Add Suc
      show ?thesis by simp
    next
      case (Update site usr pwd)
      with Cons.prems obtain s1 where
        s1: "update_entry (clk k) (clk (k + 1)) st site usr pwd = Inr s1"
        and r: "run clk (k + 2) s1 cs = Inr st'"
        by (auto split: sum.splits)
      from Cons.IH[OF update_entry_valid[OF Cons.prems(1) s1] r, of m] s1 Update Suc
      show ?thesis by simp
    next
      case (Delete site)
      with Cons.prems obtain s1 where
        s1: "delete_entry (clk k) st site = Inr s1"
        and r: "run clk (k + 1) s1 cs = Inr st'"
        by (auto split: sum.splits)
      from Cons.IH[OF delete_entry_valid[OF Cons.prems(1) s1] r, of m] s1 Delete Suc
      show ?thesis by simp
    qed
  qed
qed

lemma valid_store_card:
  "valid_store st \<Longrightarrow> count (metadata st) = int (card (dom (map_of (entries st))))"
  by (simp add: valid_store_def dom_map_of_conv_image_fst distinct_card flip: set_map)

lemma example_run:
  "run fixed_clock 0 example_store example_commands
     = Inr \<lparr>metadata = \<lparr>version = 1, created_at = ''2025-09-04T14:00:00Z'',
                         updated_at = ''2025-09-05T09:30:00Z'', count = 2\<rparr>,
            entries = [(''example.com'', \<lparr>username = ''carol'', password = ''secret'',
                                          last_updated = ''2025-09-05T09:30:00Z''\<rparr>),
                       (''gitlab.com'', \<lparr>username = ''bob'', password = ''pw'',
                                         last_updated = ''2025-09-05T09:30:00Z''\<rparr>)]\<rparr>"
  by code_simp

text \<open>
  C1. Start from a store whose keys are distinct and whose \<open>metadata.count\<close> is the
  number of its entries, and run any sequence of add, update and delete calls that
  all succeed. After each call of the sequence (after every prefix of it)
  \<open>metadata.count\<close> is the number of entries: the length of the entry list, which is
  the number of keys of the map. And \<open>update_entry\<close> never changes \<open>metadata.count\<close>,
  whether it returns or exits.
\<close>

theorem count_invariant:
  assumes "valid_store st" and "run clk k st cs = Inr st'"
  shows "(\<forall>n. \<exists>s. run clk k st (take n cs) = Inr s
            \<and> distinct (map fst (entries s))
            \<and> count (metadata s) = int (length (entries s))
            \<and> count (metadata s) = int (card (dom (map_of (entries s)))))
         \<and> (\<forall>now1 now2 s site usr pwd.
              count (metadata (store_after (update_entry now1 now2 s site usr pwd)))
                = count (metadata s))"
proof (intro conjI allI)
  fix n
  from run_prefix_valid[OF assms, of n] obtain s where
    s: "run clk k st (take n cs) = Inr s" "valid_store s" by blast
  from s(2) have "distinct (map fst (entries s))" "count (metadata s) = int (length (entries s))"
    by (simp_all add: valid_store_def)
  with s valid_store_card[OF s(2)]
  show "\<exists>s. run clk k st (take n cs) = Inr s
            \<and> distinct (map fst (entries s))
            \<and> count (metadata s) = int (length (entries s))
            \<and> count (metadata s) = int (card (dom (map_of (entries s))))"
    by blast
next
  fix now1 now2 s site usr pwd
  show "count (metadata (store_after (update_entry now1 now2 s site usr pwd))) = count (metadata s)"
    by (rule update_entry_count)
qed

theorem count_invariant_witness:
  "valid_store example_store
   \<and> (\<exists>s'. run fixed_clock 0 example_store example_commands = Inr s')
   \<and> (\<forall>n. \<exists>s. run fixed_clock 0 example_store (take n example_commands) = Inr s
            \<and> distinct (map fst (entries s))
            \<and> count (metadata s) = int (length (entries s))
            \<and> count (metadata s) = int (card (dom (map_of (entries s)))))"
proof -
  have v: "valid_store example_store"
    by (simp add: valid_store_def example_store_def)
  from count_invariant[OF v example_run] v example_run show ?thesis
    by simp
qed

section \<open>Failing mutations\<close>

text \<open>
  A call that exits leaves the store as it found it, with one exception: an update
  of both fields whose user name is accepted and whose password is empty has
  assigned the user name when it exits.
\<close>

lemma failing_mutations:
  "(add_entry now1 now2 st site usr pwd = Inl (e, st') \<longrightarrow> st' = st)
   \<and> (delete_entry now1 st site = Inl (e, st') \<longrightarrow> st' = st)
   \<and> (update_entry now1 now2 st site new_usr new_pwd = Inl (e, st') \<longrightarrow>
         st' = st \<or>
         (\<exists>s u. site = Some s \<and> new_usr = Some u \<and> u \<noteq> [] \<and> new_pwd = Some []
            \<and> st' = st\<lparr>entries :=
                        AList.map_entry (normalize_site s) (\<lambda>r. r\<lparr>username := u\<rparr>) (entries st)\<rparr>))"
  by (auto simp: add_entry_def delete_entry_def update_entry_def apply_username_def
                 apply_password_def Let_def
           split: option.splits if_splits sum.splits)

lemma update_entry_empty_password:
  assumes "map_of (entries st) (normalize_site s) \<noteq> None" and "u \<noteq> []"
  shows "update_entry now1 now2 st (Some s) (Some u) (Some [])
           = Inl (ValidationError ''update: password cannot be empty.'',
                  st\<lparr>entries :=
                       AList.map_entry (normalize_site s) (\<lambda>r. r\<lparr>username := u\<rparr>) (entries st)\<rparr>)"
  using assms
  by (auto simp: update_entry_def apply_username_def apply_password_def Let_def)

text \<open>
  C2. The claim: an update with a non-empty user name and the empty password fails and
  leaves the record as it was. On the store with the one entry \<open>example.com\<close> of user
  \<open>alice\<close>, \<open>update_entry(store, "example.com", username="bob", password="")\<close> fails
  with "update: password cannot be empty.", and the store it leaves holds the user
  name \<open>bob\<close>: the user name is assigned (line 159) before the password is tested
  (line 162).
\<close>

theorem update_entry_partial_application:
  "update_entry ''2025-09-05T09:30:00Z'' ''2025-09-05T09:30:00Z'' example_store
       (Some ''example.com'') (Some ''bob'') (Some [])
     = Inl (ValidationError ''update: password cannot be empty.'',
            \<lparr>metadata = \<lparr>version = 1, created_at = ''2025-09-04T14:00:00Z'',
                          updated_at = ''2025-09-04T14:00:00Z'', count = 1\<rparr>,
             entries = [(''example.com'', \<lparr>username = ''bob'', password = ''secret'',
                                           last_updated = ''2025-09-04T14:00:00Z''\<rparr>)]\<rparr>)
   \<and> map_of (entries example_store) ''example.com''
       = Some \<lparr>username = ''alice'', password = ''secret'',
               last_updated = ''2025-09-04T14:00:00Z''\<rparr>"
  by code_simp

section \<open>Lookup\<close>

text \<open>
  C3, as stated: \<open>get\<close> fails with a ValidationError exactly when the site is absent or
  the empty string. It does not fail on the empty string: on the new store,
  \<open>get_entry(store, "")\<close> returns \<open>None\<close>.
\<close>

theorem get_entry_empty_site_counterexample:
  "get_entry (init_store ''2025-09-04T14:00:00Z'' ''2025-09-04T14:00:00Z'') (Some []) = Inr None
   \<and> \<not> (\<exists>e. get_entry (init_store ''2025-09-04T14:00:00Z'' ''2025-09-04T14:00:00Z'') (Some [])
              = Inl e)"
  by (simp add: get_entry_def init_store_def normalize_site_def strip_def lower_def)

text \<open>
  C3, amended. \<open>get\<close> fails exactly when the site is absent (\<open>None\<close>), and then with a
  ValidationError. For every string, the empty one included, it returns what the
  entries hold under the normalized key: the record, or \<open>None\<close> when the key is absent.
\<close>

theorem get_entry_fails_iff_absent:
  "((\<exists>e. get_entry st site = Inl e) \<longleftrightarrow> site = None)
   \<and> get_entry st None = Inl (ValidationError ''get: site is required.'')
   \<and> get_entry st (Some s) = Inr (map_of (entries st) (normalize_site s))"
  by (cases site) (simp_all add: get_entry_def)

section \<open>Adding\<close>

text \<open>
  C5. On a store that holds the normalized key of \<open>S\<close>, \<open>add(S, u2, p2)\<close> with a user name
  and a password that are not empty fails with the DuplicateError, and the store
  (entries and metadata) is the same after the failed call. With an empty user name or
  password the call fails too, at the earlier test of line 114 and with its
  ValidationError, and again leaves the store as it was: \<open>add\<close> never overwrites a
  record.
\<close>

theorem add_entry_duplicate:
  assumes "map_of (entries st) (normalize_site s) \<noteq> None"
  shows "(usr \<noteq> [] \<and> pwd \<noteq> [] \<longrightarrow>
            add_entry now1 now2 st (Some s) usr pwd
              = Inl (DuplicateError (''add: entry for '' @ quoted (normalize_site s)
                        @ '' already exists. Use '' @ quoted ''update'' @ '' instead.''), st))
         \<and> (usr = [] \<or> pwd = [] \<longrightarrow>
              add_entry now1 now2 st (Some s) usr pwd
                = Inl (ValidationError ''add: username and password cannot be empty.'', st))"
  using assms by (simp add: add_entry_def Let_def)

theorem add_entry_duplicate_witness:
  "map_of (entries example_store) (normalize_site '' EXAMPLE.com'') \<noteq> None
   \<and> add_entry ''2025-09-05T09:30:00Z'' ''2025-09-05T09:30:00Z'' example_store
         (Some '' EXAMPLE.com'') ''u2'' ''p2''
       = Inl (DuplicateError (''add: entry for '' @ quoted (normalize_site '' EXAMPLE.com'')
                @ '' already exists. Use '' @ quoted ''update'' @ '' instead.''), example_store)
   \<and> add_entry ''2025-09-05T09:30:00Z'' ''2025-09-05T09:30:00Z'' example_store
         (Some '' EXAMPLE.com'') ''u2'' []
       = Inl (ValidationError ''add: username and password cannot be empty.'', example_store)"
proof -
  have h: "map_of (entries example_store) (normalize_site '' EXAMPLE.com'') \<noteq> None"
    by code_simp
  have c: "''u2'' \<noteq> [] \<and> ''p2'' \<noteq> []"
    by simp
  have e: "''u2'' = [] \<or> ([]::string) = []"
    by simp
  note d = add_entry_duplicate[OF h, of "''u2''" "''p2''" "''2025-09-05T09:30:00Z''"
      "''2025-09-05T09:30:00Z''", THEN conjunct1, THEN mp, OF c]
  note v = add_entry_duplicate[OF h, of "''u2''" "[]" "''2025-09-05T09:30:00Z''"
      "''2025-09-05T09:30:00Z''", THEN conjunct2, THEN mp, OF e]
  show ?thesis by (rule conjI[OF h conjI[OF d v]])
qed

text \<open>
  C6. After a successful \<open>add(S, u, p)\<close>, \<open>get(S')\<close> returns the record with user name
  \<open>u\<close> and password \<open>p\<close> (and the time of the add) for every \<open>S'\<close> that normalizes to
  the key of \<open>S\<close>.
\<close>

theorem add_get_round_trip:
  assumes "add_entry now1 now2 st (Some s) usr pwd = Inr st'"
    and "normalize_site s' = normalize_site s"
  shows "get_entry st' (Some s')
           = Inr (Some \<lparr>username = usr, password = pwd, last_updated = now1\<rparr>)"
  using assms
  by (auto simp: add_entry_def get_entry_def Let_def AList.update_conv'
           split: if_splits)

theorem add_get_round_trip_witness:
  "add_entry ''2025-09-05T09:30:00Z'' ''2025-09-05T09:30:01Z''
       (init_store ''2025-09-04T14:00:00Z'' ''2025-09-04T14:00:00Z'')
       (Some ''Example.com'') ''alice'' ''secret''
     = Inr \<lparr>metadata = \<lparr>version = 1, created_at = ''2025-09-04T14:00:00Z'',
                         updated_at = ''2025-09-05T09:30:01Z'', count = 1\<rparr>,
            entries = [(''example.com'', \<lparr>username = ''alice'', password = ''secret'',
                                          last_updated = ''2025-09-05T09:30:00Z''\<rparr>)]\<rparr>
   \<and> get_entry \<lparr>metadata = \<lparr>version = 1, created_at = ''2025-09-04T14:00:00Z'',
                              updated_at = ''2025-09-05T09:30:01Z'', count = 1\<rparr>,
                 entries = [(''example.com'', \<lparr>username = ''alice'', password = ''secret'',
                                               last_updated = ''2025-09-05T09:30:00Z''\<rparr>)]\<rparr>
         (Some ''  EXAMPLE.COM '')
       = Inr (Some \<lparr>username = ''alice'', password = ''secret'',
                    last_updated = ''2025-09-05T09:30:00Z''\<rparr>)"
proof -
  have a: "add_entry ''2025-09-05T09:30:00Z'' ''2025-09-05T09:30:01Z''
       (init_store ''2025-09-04T14:00:00Z'' ''2025-09-04T14:00:00Z'')
       (Some ''Example.com'') ''alice'' ''secret''
     = Inr \<lparr>metadata = \<lparr>version = 1, created_at = ''2025-09-04T14:00:00Z'',
                         updated_at = ''2025-09-05T09:30:01Z'', count = 1\<rparr>,
            entries = [(''example.com'', \<lparr>username = ''alice'', password = ''secret'',
                                          last_updated = ''2025-09-05T09:30:00Z''\<rparr>)]\<rparr>"
    by code_simp
  have n: "normalize_site ''  EXAMPLE.COM '' = normalize_site ''Example.com''"
    by code_simp
  from a add_get_round_trip[OF a n] show ?thesis
    by (intro conjI)
qed

text \<open>
  C10. For a site made of whitespace only (the empty string included), a user name and
  a password that are not empty, and a store without the key \<open>""\<close>, \<open>add\<close> succeeds:
  the site normalizes to \<open>""\<close> and the record is appended under that key, the count
  grows by one. The only site that \<open>add\<close> rejects is the absent one.
\<close>

theorem add_entry_whitespace_site:
  assumes "\<forall>c\<in>set s. isspace c" and "usr \<noteq> []" and "pwd \<noteq> []"
    and "map_of (entries st) [] = None"
  shows "normalize_site s = []
         \<and> add_entry now1 now2 st (Some s) usr pwd
             = Inr (st\<lparr>entries := entries st
                         @ [([], \<lparr>username = usr, password = pwd, last_updated = now1\<rparr>)],
                       metadata := (metadata st)\<lparr>count := int (length (entries st)) + 1,
                                                  updated_at := now2\<rparr>\<rparr>)
         \<and> add_entry now1 now2 st None usr pwd
             = Inl (ValidationError ''add: site is required.'', st)"
proof -
  from assms(1) have d: "dropWhile isspace s = []"
    by (simp add: dropWhile_eq_Nil_conv)
  have n: "normalize_site s = []"
    unfolding normalize_site_def strip_def lower_def d by simp
  with assms show ?thesis
    by (simp add: add_entry_def Let_def update_fresh)
qed

theorem add_entry_whitespace_site_witness:
  "normalize_site [CHR '' '', CHR 0x09, CHR '' ''] = []
   \<and> map_of (entries example_store) [] = None
   \<and> add_entry ''2025-09-05T09:30:00Z'' ''2025-09-05T09:30:01Z'' example_store
         (Some [CHR '' '', CHR 0x09, CHR '' '']) ''alice'' ''secret''
       = Inr \<lparr>metadata = \<lparr>version = 1, created_at = ''2025-09-04T14:00:00Z'',
                           updated_at = ''2025-09-05T09:30:01Z'', count = 2\<rparr>,
              entries = [(''example.com'', \<lparr>username = ''alice'', password = ''secret'',
                                            last_updated = ''2025-09-04T14:00:00Z''\<rparr>),
                         ([], \<lparr>username = ''alice'', password = ''secret'',
                                 last_updated = ''2025-09-05T09:30:00Z''\<rparr>)]\<rparr>"
proof -
  have w: "\<forall>c\<in>set [CHR '' '', CHR 0x09, CHR '' '']. isspace c"
    by (simp add: isspace_def)
  have k: "map_of (entries example_store) [] = None"
    by (simp add: example_store_def)
  have u: "''alice'' \<noteq> []" and p: "''secret'' \<noteq> []"
    by simp_all
  from add_entry_whitespace_site[OF w u p k, of "''2025-09-05T09:30:00Z''" "''2025-09-05T09:30:01Z''"]
    k
  show ?thesis by (simp add: example_store_def)
qed

section \<open>Updating\<close>

text \<open>
  C7. On a store that holds the normalized key of \<open>S\<close>, \<open>update(S, username=U)\<close> with
  \<open>U\<close> not empty succeeds. It keeps the keys and their order; the record under the key
  differs from the old one in \<open>username\<close> and \<open>last_updated\<close> only (its password is the
  old one), every other key maps to what it did; and the metadata differs in
  \<open>updated_at\<close> only, so count, version and created_at are the old ones.
\<close>

theorem update_username_frame:
  assumes "map_of (entries st) (normalize_site s) = Some r" and "u \<noteq> []"
  shows "\<exists>st'. update_entry now1 now2 st (Some s) (Some u) None = Inr st'
           \<and> map fst (entries st') = map fst (entries st)
           \<and> map_of (entries st')
               = (map_of (entries st))(normalize_site s \<mapsto>
                    \<lparr>username = u, password = password r, last_updated = now1\<rparr>)
           \<and> metadata st'
               = \<lparr>version = version (metadata st), created_at = created_at (metadata st),
                  updated_at = now2, count = count (metadata st)\<rparr>"
  using assms
  by (auto simp: update_entry_def apply_username_def apply_password_def Let_def
                 AList.map_of_map_entry fun_eq_iff)

theorem update_username_frame_witness:
  "map_of (entries example_store) (normalize_site '' Example.COM '')
     = Some \<lparr>username = ''alice'', password = ''secret'', last_updated = ''2025-09-04T14:00:00Z''\<rparr>
   \<and> update_entry ''2025-09-05T09:30:00Z'' ''2025-09-05T09:30:01Z'' example_store
         (Some '' Example.COM '') (Some ''bob'') None
       = Inr \<lparr>metadata = \<lparr>version = 1, created_at = ''2025-09-04T14:00:00Z'',
                           updated_at = ''2025-09-05T09:30:01Z'', count = 1\<rparr>,
              entries = [(''example.com'', \<lparr>username = ''bob'', password = ''secret'',
                                            last_updated = ''2025-09-05T09:30:00Z''\<rparr>)]\<rparr>
   \<and> (\<exists>st'. update_entry ''2025-09-05T09:30:00Z'' ''2025-09-05T09:30:01Z'' example_store
                (Some '' Example.COM '') (Some ''bob'') None = Inr st'
           \<and> map fst (entries st') = map fst (entries example_store)
           \<and> map_of (entries st')
               = (map_of (entries example_store))(normalize_site '' Example.COM '' \<mapsto>
                    \<lparr>username = ''bob'',
                     password = password \<lparr>username = ''alice'', password = ''secret'',
                                          last_updated = ''2025-09-04T14:00:00Z''\<rparr>,
                     last_updated = ''2025-09-05T09:30:00Z''\<rparr>)
           \<and> metadata st'
               = \<lparr>version = version (metadata example_store),
                  created_at = created_at (metadata example_store),
                  updated_at = ''2025-09-05T09:30:01Z'',
                  count = count (metadata example_store)\<rparr>)"
proof -
  have h: "map_of (entries example_store) (normalize_site '' Example.COM '')
     = Some \<lparr>username = ''alice'', password = ''secret'', last_updated = ''2025-09-04T14:00:00Z''\<rparr>"
    by code_simp
  have b: "''bob'' \<noteq> []"
    by simp
  have e: "update_entry ''2025-09-05T09:30:00Z'' ''2025-09-05T09:30:01Z'' example_store
         (Some '' Example.COM '') (Some ''bob'') None
       = Inr \<lparr>metadata = \<lparr>version = 1, created_at = ''2025-09-04T14:00:00Z'',
                           updated_at = ''2025-09-05T09:30:01Z'', count = 1\<rparr>,
              entries = [(''example.com'', \<lparr>username = ''bob'', password = ''secret'',
                                            last_updated = ''2025-09-05T09:30:00Z''\<rparr>)]\<rparr>"
    by code_simp
  from h e update_username_frame[OF h b, of "''2025-09-05T09:30:00Z''" "''2025-09-05T09:30:01Z''"]
  show ?thesis by (intro conjI)
qed

section \<open>Validation against its documented schema\<close>

lemma check_metadata_Inr:
  "(check_metadata m spec = Inr ()) = list_all (\<lambda>(key, typ). checked_field m key typ) spec"
  by (induction spec) (auto simp: checked_field_def split: option.splits if_splits)

lemma check_metadata_Inl:
  "check_metadata m spec = Inr () \<or> (\<exists>msg. check_metadata m spec = Inl (SchemaError msg))"
  by (induction spec) (auto split: option.splits)

lemma check_fields_Inr:
  "(check_fields site flds spec = Inr ()) = list_all (\<lambda>(key, typ). checked_field flds key typ) spec"
  by (induction spec) (auto simp: checked_field_def split: option.splits if_splits)

lemma check_fields_Inl:
  "check_fields site flds spec = Inr () \<or> (\<exists>msg. check_fields site flds spec = Inl (SchemaError msg))"
  by (induction spec) (auto split: option.splits)

lemma check_entries_Cons_JObj:
  "check_entries ((site, JObj flds) # rest) =
     (if entry_checked (JObj flds) then check_entries rest
      else Inl (case check_fields site flds
                  [(''username'', PyStr), (''password'', PyStr), (''last_updated'', PyStr)] of
                  Inl e \<Rightarrow> e))"
proof -
  let ?spec = "[(''username'', PyStr), (''password'', PyStr), (''last_updated'', PyStr)]"
  have ok: "entry_checked (JObj flds) = (check_fields site flds ?spec = Inr ())"
    unfolding check_fields_Inr by (simp add: entry_checked_def)
  show ?thesis
    unfolding ok check_entries.simps json.case
    by (cases "check_fields site flds ?spec") simp_all
qed

lemma check_entries_Inl:
  "check_entries es = Inr () \<or> (\<exists>msg. check_entries es = Inl (SchemaError msg))"
proof (induction es)
  case Nil
  then show ?case by simp
next
  case (Cons a es)
  obtain site v where a: "a = (site, v)" by (cases a)
  let ?spec = "[(''username'', PyStr), (''password'', PyStr), (''last_updated'', PyStr)]"
  show ?case
  proof (cases v)
    case (JObj flds)
    from check_fields_Inl[of site flds ?spec] show ?thesis
    proof
      assume "check_fields site flds ?spec = Inr ()"
      with Cons show ?thesis unfolding a JObj check_entries.simps json.case by simp
    next
      assume "\<exists>msg. check_fields site flds ?spec = Inl (SchemaError msg)"
      then show ?thesis unfolding a JObj check_entries.simps json.case by auto
    qed
  qed (simp_all add: a)
qed

lemma check_entries_Inr:
  "(check_entries es = Inr ()) = list_all (\<lambda>(site, v). entry_checked v) es"
proof (induction es)
  case Nil
  then show ?case by simp
next
  case (Cons a es)
  obtain site v where a: "a = (site, v)" by (cases a)
  let ?spec = "[(''username'', PyStr), (''password'', PyStr), (''last_updated'', PyStr)]"
  show ?case
  proof (cases v)
    case (JObj flds)
    show ?thesis
      unfolding a JObj check_entries_Cons_JObj using Cons.IH by simp
  qed (simp_all add: a entry_checked_def)
qed

lemma validate_JObj:
  "map_of kvs ''metadata'' = Some (JObj m) \<Longrightarrow> map_of kvs ''entries'' = Some (JObj es) \<Longrightarrow>
   validate_store_schema (JObj kvs) =
     (case check_metadata m [(''version'', PyInt), (''created_at'', PyStr),
                             (''updated_at'', PyStr), (''count'', PyInt)] of
        Inl e \<Rightarrow> Inl e
      | Inr u \<Rightarrow>
          (case check_entries es of
             Inl e \<Rightarrow> Inl e
           | Inr u \<Rightarrow>
               (case map_of m ''count'' of
                  None \<Rightarrow> Inl (KeyError ''count'')
                | Some c \<Rightarrow>
                    if \<not> equals_len c (length es)
                    then Inl (SchemaError
                      ''Invalid store schema: metadata.count does not match number of entries.'')
                    else Inr ())))"
  unfolding validate_store_schema_def by (simp only: json.case prod.case option.case)

lemma validate_not_objects:
  "\<not> (\<exists>m es. map_of kvs ''metadata'' = Some (JObj m) \<and> map_of kvs ''entries'' = Some (JObj es)) \<Longrightarrow>
   (\<exists>msg. validate_store_schema (JObj kvs) = Inl (SchemaError msg)) \<and> \<not> checks_pass (JObj kvs)"
  unfolding validate_store_schema_def checks_pass_def
  by (cases "map_of kvs ''metadata''"; cases "map_of kvs ''entries''")
     (auto split: json.splits)

lemma validate_not_dict:
  "\<not> (\<exists>kvs. doc = JObj kvs) \<Longrightarrow>
   (\<exists>msg. validate_store_schema doc = Inl (SchemaError msg)) \<and> \<not> checks_pass doc"
  by (cases doc) (simp_all add: validate_store_schema_def checks_pass_def)

lemma checks_Inr:
  "((case check_metadata m spec of
       Inl e \<Rightarrow> Inl e
     | Inr u \<Rightarrow>
         (case check_entries es of
            Inl e \<Rightarrow> Inl e
          | Inr u \<Rightarrow>
              (case map_of m ''count'' of
                 None \<Rightarrow> Inl (KeyError ''count'')
               | Some c \<Rightarrow> if \<not> equals_len c n then Inl (SchemaError msg) else Inr ()))) = Inr ())
   = (list_all (\<lambda>(key, typ). checked_field m key typ) spec
      \<and> list_all (\<lambda>(site, v). entry_checked v) es
      \<and> (case map_of m ''count'' of None \<Rightarrow> False | Some c \<Rightarrow> equals_len c n))"
  unfolding check_metadata_Inr[symmetric] check_entries_Inr[symmetric]
  by (cases "check_metadata m spec"; cases "check_entries es"; cases "map_of m ''count''") simp_all

lemma checks_SchemaError:
  assumes "check_metadata m spec = Inr () \<longrightarrow> map_of m ''count'' \<noteq> None"
  shows "(\<lambda>res. res = Inr () \<or> (\<exists>msg. res = Inl (SchemaError msg)))
     (case check_metadata m spec of
       Inl e \<Rightarrow> Inl e
     | Inr u \<Rightarrow>
         (case check_entries es of
            Inl e \<Rightarrow> Inl e
          | Inr u \<Rightarrow>
              (case map_of m ''count'' of
                 None \<Rightarrow> Inl (KeyError ''count'')
               | Some c \<Rightarrow> if \<not> equals_len c n then Inl (SchemaError txt) else Inr ())))"
  using assms check_metadata_Inl[of m spec] check_entries_Inl[of es]
  by (cases "check_metadata m spec"; cases "check_entries es"; cases "map_of m ''count''") auto

lemma count_present:
  "check_metadata m [(''version'', PyInt), (''created_at'', PyStr),
                     (''updated_at'', PyStr), (''count'', PyInt)] = Inr ()
   \<longrightarrow> map_of m ''count'' \<noteq> None"
  unfolding check_metadata_Inr by (auto simp: checked_field_def split: option.splits)

lemma validate_iff_checks_pass: "(validate_store_schema doc = Inr ()) = checks_pass doc"
proof (cases "\<exists>kvs m es. doc = JObj kvs \<and> map_of kvs ''metadata'' = Some (JObj m)
                 \<and> map_of kvs ''entries'' = Some (JObj es)")
  case True
  then obtain kvs m es where d: "doc = JObj kvs" "map_of kvs ''metadata'' = Some (JObj m)"
    "map_of kvs ''entries'' = Some (JObj es)" by blast
  have ok: "checks_pass (JObj kvs) =
      (list_all (\<lambda>(key, typ). checked_field m key typ)
          [(''version'', PyInt), (''created_at'', PyStr), (''updated_at'', PyStr), (''count'', PyInt)]
       \<and> list_all (\<lambda>(site, v). entry_checked v) es
       \<and> (case map_of m ''count'' of None \<Rightarrow> False | Some c \<Rightarrow> equals_len c (length es)))"
    using d(2,3) by (simp add: checks_pass_def)
  show ?thesis
    unfolding d(1) ok validate_JObj[OF d(2,3)] by (rule checks_Inr)
next
  case False
  show ?thesis
  proof (cases "\<exists>kvs. doc = JObj kvs")
    case True
    then obtain kvs where k: "doc = JObj kvs" by blast
    with False validate_not_objects[of kvs] show ?thesis by auto
  next
    case False
    with validate_not_dict[of doc] show ?thesis by auto
  qed
qed

lemma validate_SchemaError:
  "validate_store_schema doc = Inr () \<or> (\<exists>msg. validate_store_schema doc = Inl (SchemaError msg))"
proof (cases "\<exists>kvs m es. doc = JObj kvs \<and> map_of kvs ''metadata'' = Some (JObj m)
                 \<and> map_of kvs ''entries'' = Some (JObj es)")
  case True
  then obtain kvs m es where d: "doc = JObj kvs" "map_of kvs ''metadata'' = Some (JObj m)"
    "map_of kvs ''entries'' = Some (JObj es)" by blast
  show ?thesis
    unfolding d(1) validate_JObj[OF d(2,3)] by (rule checks_SchemaError[OF count_present])
next
  case False
  show ?thesis
  proof (cases "\<exists>kvs. doc = JObj kvs")
    case True
    then obtain kvs where k: "doc = JObj kvs" by blast
    with False validate_not_objects[of kvs] show ?thesis by auto
  next
    case False
    with validate_not_dict[of doc] show ?thesis by auto
  qed
qed

lemma entries_json_ok:
  "list_all (\<lambda>(site, v). entry_checked v) (map (\<lambda>(site, r). (site, entry_json r)) es)"
  by (induction es) (auto simp: entry_checked_def entry_json_def checked_field_def)

lemma checks_pass_store_json:
  "checks_pass (store_json st) = (count (metadata st) = int (length (entries st)))"
  by (simp add: checks_pass_def store_json_def metadata_json_def checked_field_def entries_json_ok)

lemma checked_field_PyInt: "checked_field obj key PyInt = integer_field obj key"
  by (cases "map_of obj key")
     (auto simp: checked_field_def integer_field_def integer_value_def split: json.splits)

lemma checked_field_PyStr: "checked_field obj key PyStr = string_field obj key"
  by (cases "map_of obj key")
     (auto simp: checked_field_def string_field_def string_value_def split: json.splits)

lemma entry_checked_iff: "entry_checked v = entry_ok v"
  by (cases v) (simp_all add: entry_checked_def entry_ok_def checked_field_PyStr)

lemma count_checked_iff:
  "(checked_field m ''count'' PyInt
      \<and> (case map_of m ''count'' of None \<Rightarrow> False | Some c \<Rightarrow> equals_len c n))
   = (integer_field m ''count''
      \<and> (case map_of m ''count'' of None \<Rightarrow> False | Some c \<Rightarrow> integer_value c = Some (int n)))"
proof (cases "map_of m ''count''")
  case None
  then show ?thesis by (simp add: checked_field_def integer_field_def)
next
  case (Some c)
  then show ?thesis
    by (cases c) (auto simp: checked_field_def integer_field_def integer_value_def)
qed

lemma checks_pass_iff_schema_ok: "checks_pass doc = schema_ok doc"
proof (cases "\<exists>kvs m es. doc = JObj kvs \<and> map_of kvs ''metadata'' = Some (JObj m)
                 \<and> map_of kvs ''entries'' = Some (JObj es)")
  case True
  then obtain kvs m es where d: "doc = JObj kvs" "map_of kvs ''metadata'' = Some (JObj m)"
    "map_of kvs ''entries'' = Some (JObj es)" by blast
  have a: "checks_pass doc =
      (checked_field m ''version'' PyInt \<and> checked_field m ''created_at'' PyStr
       \<and> checked_field m ''updated_at'' PyStr
       \<and> list_all (\<lambda>(site, v). entry_checked v) es
       \<and> (checked_field m ''count'' PyInt
            \<and> (case map_of m ''count'' of None \<Rightarrow> False | Some c \<Rightarrow> equals_len c (length es))))"
    using d by (auto simp: checks_pass_def)
  have b: "schema_ok doc =
      (integer_field m ''version'' \<and> string_field m ''created_at''
       \<and> string_field m ''updated_at''
       \<and> list_all (\<lambda>(site, v). entry_ok v) es
       \<and> (integer_field m ''count''
            \<and> (case map_of m ''count'' of
                  None \<Rightarrow> False
                | Some c \<Rightarrow> integer_value c = Some (int (length es)))))"
    using d by (auto simp: schema_ok_def)
  show ?thesis
    unfolding a b checked_field_PyInt checked_field_PyStr entry_checked_iff
    using count_checked_iff[of m "length es", unfolded checked_field_PyInt]
    by blast
next
  case False
  then have "\<not> checks_pass doc" and "\<not> schema_ok doc"
    by (auto simp: checks_pass_def schema_ok_def split: json.splits option.splits)
  then show ?thesis by simp
qed

text \<open>
  C4, as stated: validation rejects every document in which a record has the empty
  string as user name or password. The document with the one record
  \<open>{"username": "", "password": "secret", ...}\<close> and count 1 is accepted.
\<close>

theorem validate_empty_username_counterexample:
  "validate_store_schema empty_username_document = Inr ()
   \<and> \<not> (\<exists>msg. validate_store_schema empty_username_document = Inl (SchemaError msg))"
proof -
  have "validate_store_schema empty_username_document = Inr ()"
    by code_simp
  then show ?thesis by simp
qed

text \<open>
  C4, amended. Validation accepts a document exactly when the top level, \<open>metadata\<close>
  and \<open>entries\<close> are objects; \<open>version\<close> and \<open>count\<close> are present and are integers,
  a JSON boolean counting as the integer 1 or 0; \<open>created_at\<close> and \<open>updated_at\<close> are
  present and are strings; every record is an object with strings as \<open>username\<close>,
  \<open>password\<close> and \<open>last_updated\<close>; and the value of \<open>count\<close> is the number of
  entries. Every other document is rejected, with a SchemaError. That a user name or
  a password is not empty is not checked: a store as the engine holds it, whatever
  strings its records carry, is accepted exactly when its count is the number of its
  entries.
\<close>

theorem validate_store_schema_checks:
  "(validate_store_schema doc = Inr ()) = schema_ok doc
   \<and> (validate_store_schema doc = Inr ()
        \<or> (\<exists>msg. validate_store_schema doc = Inl (SchemaError msg)))
   \<and> (validate_store_schema (store_json st) = Inr ())
       = (count (metadata st) = int (length (entries st)))"
proof (intro conjI)
  show "(validate_store_schema doc = Inr ()) = schema_ok doc"
    unfolding validate_iff_checks_pass by (rule checks_pass_iff_schema_ok)
  show "validate_store_schema doc = Inr ()
        \<or> (\<exists>msg. validate_store_schema doc = Inl (SchemaError msg))"
    by (rule validate_SchemaError)
  show "(validate_store_schema (store_json st) = Inr ())
          = (count (metadata st) = int (length (entries st)))"
    unfolding validate_iff_checks_pass by (rule checks_pass_store_json)
qed

theorem validate_store_schema_checks_witness:
  "validate_store_schema (store_json (example_store\<lparr>entries := []\<rparr>))
     = Inl (SchemaError ''Invalid store schema: metadata.count does not match number of entries.'')
   \<and> \<not> schema_ok (store_json (example_store\<lparr>entries := []\<rparr>))
   \<and> validate_store_schema (store_json example_store) = Inr ()
   \<and> schema_ok (store_json example_store)
   \<and> schema_ok boolean_count_document
   \<and> validate_store_schema boolean_count_document = Inr ()"
proof -
  have r: "validate_store_schema (store_json (example_store\<lparr>entries := []\<rparr>))
     = Inl (SchemaError ''Invalid store schema: metadata.count does not match number of entries.'')"
    by code_simp
  have c: "count (metadata example_store) = int (length (entries example_store))"
    by (simp add: example_store_def)
  have k: "schema_ok boolean_count_document"
    by (simp add: schema_ok_def boolean_count_document_def integer_field_def string_field_def
          integer_value_def string_value_def entry_ok_def)
  note t1 = validate_store_schema_checks[of "store_json (example_store\<lparr>entries := []\<rparr>)" example_store]
  note t2 = validate_store_schema_checks[of "store_json example_store" example_store]
  note t3 = validate_store_schema_checks[of boolean_count_document example_store]
  from t1 r have n: "\<not> schema_ok (store_json (example_store\<lparr>entries := []\<rparr>))"
    by simp
  from t2 c have a: "validate_store_schema (store_json example_store) = Inr ()"
    by blast
  with t2 have s: "schema_ok (store_json example_store)"
    by blast
  from t3 k have b: "validate_store_schema boolean_count_document = Inr ()"
    by blast
  show ?thesis by (rule conjI[OF r conjI[OF n conjI[OF a conjI[OF s conjI[OF k b]]]]])
qed

section \<open>Search\<close>

lemma contains_iff: "contains k s \<longleftrightarrow> (\<exists>p q. s = p @ k @ q)"
proof (induction s)
  case Nil
  then show ?case by simp
next
  case (Cons c s)
  show ?case
  proof
    assume "contains k (c # s)"
    then consider "take (length k) (c # s) = k" | "contains k s" by auto
    then show "\<exists>p q. c # s = p @ k @ q"
    proof cases
      case 1
      then have "c # s = [] @ k @ drop (length k) (c # s)"
        by (metis append_Nil append_take_drop_id)
      then show ?thesis by blast
    next
      case 2
      with Cons obtain p q where "s = p @ k @ q" by blast
      then have "c # s = (c # p) @ k @ q" by simp
      then show ?thesis by blast
    qed
  next
    assume "\<exists>p q. c # s = p @ k @ q"
    then obtain p q where pq: "c # s = p @ k @ q" by blast
    show "contains k (c # s)"
    proof (cases p)
      case Nil
      with pq have "take (length k) (c # s) = k" by simp
      then show ?thesis by simp
    next
      case (Cons a p')
      with pq have "s = p' @ k @ q" by simp
      with Cons.IH show ?thesis by auto
    qed
  qed
qed

lemma keys_of_filter:
  assumes "distinct (map fst es)"
  shows "set (map fst (filter (\<lambda>(site, r). P site r) es))
           = {site. \<exists>r. map_of es site = Some r \<and> P site r}"
proof -
  have "\<And>site r. (map_of es site = Some r) = ((site, r) \<in> set es)"
    using assms by simp
  then show ?thesis by force
qed

lemma search_entries_Some:
  "kw \<noteq> [] \<Longrightarrow>
   search_entries st (Some kw)
     = sort (map fst (filter (\<lambda>(site, r). contains (lower kw) (lower site)
                                  \<or> contains (lower kw) (lower (username r))) (entries st)))"
  by (simp add: search_entries_def Let_def)

text \<open>
  C8. For an absent or empty keyword the result is the empty list. For any other
  keyword, on a store with distinct keys, the result is sorted (lexicographically, by
  code point), holds no site twice, and its elements are exactly the keys of the entries
  in which the lowercased keyword is a substring of the lowercased key or of the
  lowercased user name.
\<close>

theorem search_entries_spec:
  assumes "distinct (map fst (entries st))"
  shows "search_entries st None = [] \<and> search_entries st (Some []) = []
         \<and> (kw \<noteq> [] \<longrightarrow>
              sorted (search_entries st (Some kw))
              \<and> distinct (search_entries st (Some kw))
              \<and> set (search_entries st (Some kw))
                  = {site. \<exists>r. map_of (entries st) site = Some r
                       \<and> ((\<exists>p q. lower site = p @ lower kw @ q)
                            \<or> (\<exists>p q. lower (username r) = p @ lower kw @ q))})"
proof (intro conjI impI)
  show "search_entries st None = []" by (simp add: search_entries_def)
  show "search_entries st (Some []) = []" by (simp add: search_entries_def)
next
  assume kw: "kw \<noteq> []"
  show "sorted (search_entries st (Some kw))"
    by (simp add: search_entries_Some[OF kw])
  show "distinct (search_entries st (Some kw))"
    using assms by (simp add: search_entries_Some[OF kw] distinct_map_filter)
  show "set (search_entries st (Some kw))
          = {site. \<exists>r. map_of (entries st) site = Some r
               \<and> ((\<exists>p q. lower site = p @ lower kw @ q)
                    \<or> (\<exists>p q. lower (username r) = p @ lower kw @ q))}"
    unfolding search_entries_Some[OF kw] set_sort contains_iff[symmetric]
    by (rule keys_of_filter[OF assms])
qed

theorem search_entries_spec_witness:
  "distinct (map fst (entries search_store))
   \<and> search_entries search_store (Some ''Git'') = [''github.com'', ''gitlab.com'']
   \<and> search_entries search_store (Some ''AL'') = [''github.com'']
   \<and> (sorted (search_entries search_store (Some ''Git''))
        \<and> distinct (search_entries search_store (Some ''Git''))
        \<and> set (search_entries search_store (Some ''Git''))
            = {site. \<exists>r. map_of (entries search_store) site = Some r
                 \<and> ((\<exists>p q. lower site = p @ lower ''Git'' @ q)
                      \<or> (\<exists>p q. lower (username r) = p @ lower ''Git'' @ q))})"
proof -
  have d: "distinct (map fst (entries search_store))"
    by (simp add: search_store_def)
  have e1: "search_entries search_store (Some ''Git'') = [''github.com'', ''gitlab.com'']"
    by code_simp
  have e2: "search_entries search_store (Some ''AL'') = [''github.com'']"
    by code_simp
  have k: "''Git'' \<noteq> []"
    by simp
  note t = search_entries_spec[OF d, of "''Git''", THEN conjunct2, THEN conjunct2, THEN mp, OF k]
  show ?thesis by (rule conjI[OF d conjI[OF e1 conjI[OF e2 t]]])
qed

section \<open>Statistics\<close>

lemma round_half_even_near:
  assumes "0 < den"
  shows "\<bar>real_of_int (round_half_even num den) - real_of_int num / real_of_int den\<bar> \<le> 1 / 2"
proof -
  define f where "f = num div den"
  define r where "r = num mod den"
  have n: "num = f * den + r" by (simp add: f_def r_def)
  have r0: "0 \<le> r" "r < den" using assms by (simp_all add: r_def)
  have q: "real_of_int num / real_of_int den = real_of_int f + real_of_int r / real_of_int den"
    using assms by (simp add: n field_simps)
  have d: "0 < real_of_int den" using assms by simp
  consider "2 * r < den" | "den < 2 * r" | "2 * r = den" by linarith
  then show ?thesis
  proof cases
    case 1
    then have v: "round_half_even num den = f"
      by (simp add: round_half_even_def Let_def f_def r_def)
    from 1 have "2 * real_of_int r < real_of_int den" by linarith
    with d r0 have "real_of_int r / real_of_int den < 1 / 2" "0 \<le> real_of_int r / real_of_int den"
      by (simp_all add: field_simps)
    then show ?thesis unfolding v q by simp
  next
    case 2
    then have v: "round_half_even num den = f + 1"
      by (simp add: round_half_even_def Let_def f_def r_def)
    from 2 have "real_of_int den < 2 * real_of_int r" by linarith
    with d r0 have "1 / 2 < real_of_int r / real_of_int den" "real_of_int r / real_of_int den < 1"
      by (simp_all add: field_simps)
    then show ?thesis unfolding v q by simp
  next
    case 3
    then have v: "round_half_even num den = f \<or> round_half_even num den = f + 1"
      by (simp add: round_half_even_def Let_def f_def r_def)
    from 3 have "real_of_int den = 2 * real_of_int r" by linarith
    with d have "real_of_int r / real_of_int den = 1 / 2"
      by (simp add: field_simps)
    with v show ?thesis unfolding q by auto
  qed
qed

lemma nearest_integer:
  assumes "\<bar>real_of_int n - m\<bar> \<le> 1 / 2"
  shows "\<bar>real_of_int n - m\<bar> \<le> \<bar>real_of_int t - m\<bar>"
proof (cases "t = n")
  case True
  then show ?thesis by simp
next
  case False
  then have "1 \<le> \<bar>t - n\<bar>" by linarith
  then have "1 \<le> \<bar>real_of_int t - real_of_int n\<bar>"
    by (metis of_int_1 of_int_abs of_int_diff of_int_le_iff)
  with assms show ?thesis by linarith
qed

lemma floorlog2_bounds:
  assumes "0 < n"
  shows "2 ^ (floorlog 2 n - 1) \<le> n" and "n < 2 ^ floorlog 2 n" and "0 < floorlog 2 n"
  using floorlog_bounds[of n 2] assms by (auto simp: floorlog_eq_zero_iff intro: Nat.gr0I)

lemma exponent_ge:
  assumes "0 < b" and "b \<le> a"
  shows "2 ^ (floorlog 2 (a div b) - 1) * b \<le> a" and "a < 2 ^ floorlog 2 (a div b) * b"
    and "0 < floorlog 2 (a div b)"
proof -
  from assms have d: "0 < a div b"
    by (simp add: div_greater_zero_iff)
  note fl = floorlog2_bounds[OF d]
  show "0 < floorlog 2 (a div b)" by (rule fl(3))
  have "2 ^ (floorlog 2 (a div b) - 1) * b \<le> (a div b) * b"
    using fl(1) by (rule mult_le_mono1)
  also have "\<dots> \<le> a" by simp
  finally show "2 ^ (floorlog 2 (a div b) - 1) * b \<le> a" .
  have "a < (a div b + 1) * b"
    using assms(1) by (metis Suc_eq_plus1 dividend_less_div_times add.commute mult.commute mult_Suc)
  also have "\<dots> \<le> 2 ^ floorlog 2 (a div b) * b"
    using fl(2) by (intro mult_le_mono1) simp
  finally show "a < 2 ^ floorlog 2 (a div b) * b" .
qed

lemma exponent_lt:
  assumes "0 < a" and "a < b"
  shows "b \<le> 2 ^ floorlog 2 ((b - 1) div a) * a"
    and "2 ^ (floorlog 2 ((b - 1) div a) - 1) * a < b"
    and "0 < floorlog 2 ((b - 1) div a)"
proof -
  from assms have d: "0 < (b - 1) div a"
    by (simp add: div_greater_zero_iff)
  note fl = floorlog2_bounds[OF d]
  show "0 < floorlog 2 ((b - 1) div a)" by (rule fl(3))
  have "b - 1 < ((b - 1) div a + 1) * a"
    using assms(1) by (metis Suc_eq_plus1 dividend_less_div_times add.commute mult.commute mult_Suc)
  also have "\<dots> \<le> 2 ^ floorlog 2 ((b - 1) div a) * a"
    using fl(2) by (intro mult_le_mono1) simp
  finally show "b \<le> 2 ^ floorlog 2 ((b - 1) div a) * a"
    using assms by linarith
  have "2 ^ (floorlog 2 ((b - 1) div a) - 1) * a \<le> ((b - 1) div a) * a"
    using fl(1) by (rule mult_le_mono1)
  also have "\<dots> \<le> b - 1" by simp
  finally show "2 ^ (floorlog 2 ((b - 1) div a) - 1) * a < b"
    using assms by linarith
qed

lemma binary_exponent_bounds:
  assumes "0 < a" and "0 < b"
  shows "2 powi (binary_exponent a b) \<le> real a / real b"
    and "real a / real b < 2 powi (binary_exponent a b + 1)"
proof -
  have rb: "0 < real b" using assms by simp
  show "2 powi (binary_exponent a b) \<le> real a / real b"
  proof (cases "b \<le> a")
    case True
    note x = exponent_ge[OF assms(2) True]
    define f where "f = floorlog 2 (a div b)"
    have e: "binary_exponent a b = int (f - 1)"
      using True x(3) by (simp add: binary_exponent_def f_def of_nat_diff)
    have "real (2 ^ (f - 1) * b) \<le> real a"
      using x(1) unfolding f_def by (rule iffD2[OF of_nat_le_iff])
    then have "2 ^ (f - 1) \<le> real a / real b"
      using rb by (simp add: field_simps)
    then show ?thesis unfolding e power_int_of_nat .
  next
    case False
    then have lt: "a < b" by simp
    note x = exponent_lt[OF assms(1) lt]
    define k where "k = floorlog 2 ((b - 1) div a)"
    have e: "binary_exponent a b = - int k"
      using False by (simp add: binary_exponent_def k_def)
    have "real b \<le> real (2 ^ k * a)"
      using x(1) unfolding k_def by (rule iffD2[OF of_nat_le_iff])
    then have "1 / 2 ^ k \<le> real a / real b"
      using rb by (simp add: field_simps)
    then show ?thesis unfolding e by (simp add: power_int_minus field_simps)
  qed
  show "real a / real b < 2 powi (binary_exponent a b + 1)"
  proof (cases "b \<le> a")
    case True
    note x = exponent_ge[OF assms(2) True]
    define f where "f = floorlog 2 (a div b)"
    have e: "binary_exponent a b + 1 = int f"
      using True x(3) by (simp add: binary_exponent_def f_def)
    have "real a < real (2 ^ f * b)"
      using x(2) unfolding f_def by (rule iffD2[OF of_nat_less_iff])
    then have "real a / real b < 2 ^ f"
      using rb by (simp add: field_simps)
    then show ?thesis unfolding e power_int_of_nat .
  next
    case False
    then have lt: "a < b" by simp
    note x = exponent_lt[OF assms(1) lt]
    define k where "k = floorlog 2 ((b - 1) div a)"
    have k0: "0 < k" using x(3) by (simp add: k_def)
    have e: "binary_exponent a b + 1 = - int (k - 1)"
      using False k0 by (simp add: binary_exponent_def k_def)
    have "real (2 ^ (k - 1) * a) < real b"
      using x(2) unfolding k_def by (rule iffD2[OF of_nat_less_iff])
    then have "real a / real b < 1 / 2 ^ (k - 1)"
      using rb by (simp add: field_simps)
    then show ?thesis unfolding e by (simp add: power_int_minus field_simps)
  qed
qed

lemma scaled_quotient:
  assumes "0 < a" and "0 < b"
  shows "\<bar>real_of_int (if e \<le> 52 then round_half_even (int a * 2 ^ nat (52 - e)) (int b)
                       else round_half_even (int a) (int b * 2 ^ nat (e - 52)))
           - (real a / real b) / 2 powi (e - 52)\<bar> \<le> 1 / 2"
proof (cases "e \<le> 52")
  case True
  have p: "(2::real) powi (e - 52) = 1 / 2 ^ nat (52 - e)"
  proof -
    have "e - 52 = - int (nat (52 - e))" using True by simp
    then have "(2::real) powi (e - 52) = 2 powi (- int (nat (52 - e)))" by simp
    also have "\<dots> = 1 / 2 ^ nat (52 - e)"
      by (simp only: power_int_minus power_int_of_nat) (simp add: field_simps)
    finally show ?thesis .
  qed
  have "real_of_int (int a * 2 ^ nat (52 - e)) / real_of_int (int b)
          = (real a / real b) / 2 powi (e - 52)"
    unfolding p by simp
  with round_half_even_near[of "int b" "int a * 2 ^ nat (52 - e)"] assms True
  show ?thesis by simp
next
  case False
  have p: "(2::real) powi (e - 52) = 2 ^ nat (e - 52)"
  proof -
    have "e - 52 = int (nat (e - 52))" using False by simp
    then have "(2::real) powi (e - 52) = 2 powi (int (nat (e - 52)))" by simp
    then show ?thesis by (simp only: power_int_of_nat)
  qed
  have "real_of_int (int a) / real_of_int (int b * 2 ^ nat (e - 52))
          = (real a / real b) / 2 powi (e - 52)"
    unfolding p by simp
  with round_half_even_near[of "int b * 2 ^ nat (e - 52)" "int a"] assms False
  show ?thesis by simp
qed

lemma rounded_properties:
  fixes x :: real and n :: int and e :: int
  assumes lo: "2 powi e \<le> x" and hi: "x < 2 powi (e + 1)"
    and near: "\<bar>real_of_int n - x / 2 powi (e - 52)\<bar> \<le> 1 / 2"
  shows "2 ^ 52 \<le> n" and "n \<le> 2 ^ 53"
    and "\<bar>real_of_int n * 2 powi (e - 52) - x\<bar> \<le> x / 2 ^ 53"
    and "\<bar>k\<bar> \<le> 2 ^ 53 \<Longrightarrow>
         \<bar>real_of_int n * 2 powi (e - 52) - x\<bar> \<le> \<bar>real_of_int k * 2 powi j - x\<bar>"
proof -
  define q :: real where "q = 2 powi (e - 52)"
  define m where "m = x / q"
  have q0: "0 < q" by (simp add: q_def zero_less_power_int)
  have qe: "2 ^ 52 * q = 2 powi e"
  proof -
    have "(2::real) powi e = 2 powi (52 + (e - 52))" by simp
    also have "\<dots> = 2 powi 52 * 2 powi (e - 52)" by (rule power_int_add) simp
    finally show ?thesis by (simp add: q_def)
  qed
  have qe1: "2 ^ 53 * q = 2 powi (e + 1)"
  proof -
    have "(2::real) powi (e + 1) = 2 powi (53 + (e - 52))"
      by (rule arg_cong[where f = "\<lambda>i. 2 powi i"]) simp
    also have "\<dots> = 2 powi 53 * 2 powi (e - 52)" by (rule power_int_add) simp
    finally show ?thesis by (simp add: q_def)
  qed
  have x: "x = m * q" using q0 by (simp add: m_def)
  have m_lo: "2 ^ 52 \<le> m"
    using lo q0 unfolding qe[symmetric] x by simp
  have m_hi: "m < 2 ^ 53"
    using hi q0 unfolding qe1[symmetric] x by simp
  from near have nm: "\<bar>real_of_int n - m\<bar> \<le> 1 / 2" by (simp add: m_def q_def)
  from nm have n1: "m - 1 / 2 \<le> real_of_int n" and n2: "real_of_int n \<le> m + 1 / 2"
    by linarith+
  have "real_of_int (2 ^ 52) - 1 < real_of_int n" using n1 m_lo by simp
  then have "(2 ^ 52 :: int) - 1 < n" by (metis of_int_1 of_int_diff of_int_less_iff)
  then show n_lo: "2 ^ 52 \<le> n" by simp
  have "real_of_int n < real_of_int (2 ^ 53) + 1" using n2 m_hi by simp
  then have "n < (2 ^ 53 :: int) + 1" by (metis of_int_1 of_int_add of_int_less_iff)
  then show n_hi: "n \<le> 2 ^ 53" by simp
  have d: "\<And>t. \<bar>real_of_int t * q - x\<bar> = \<bar>real_of_int t - m\<bar> * q"
  proof -
    fix t
    have "real_of_int t * q - x = (real_of_int t - m) * q" by (simp add: x algebra_simps)
    then show "\<bar>real_of_int t * q - x\<bar> = \<bar>real_of_int t - m\<bar> * q"
      using q0 by (simp add: abs_mult)
  qed
  have "\<bar>real_of_int n * q - x\<bar> \<le> (1 / 2) * q"
    unfolding d using nm q0 by (intro mult_right_mono) simp_all
  also have "\<dots> = 2 powi e / 2 ^ 53" unfolding qe[symmetric] by simp
  also have "\<dots> \<le> x / 2 ^ 53" using lo by (simp add: divide_right_mono)
  finally show "\<bar>real_of_int n * 2 powi (e - 52) - x\<bar> \<le> x / 2 ^ 53"
    by (simp add: q_def)
  assume k: "\<bar>k\<bar> \<le> 2 ^ 53"
  show "\<bar>real_of_int n * 2 powi (e - 52) - x\<bar> \<le> \<bar>real_of_int k * 2 powi j - x\<bar>"
  proof (cases "e - 52 \<le> j")
    case True
    define t where "t = k * 2 ^ nat (j - (e - 52))"
    have "(2::real) powi j = 2 powi (int (nat (j - (e - 52))) + (e - 52))"
      using True by simp
    also have "\<dots> = 2 powi (int (nat (j - (e - 52)))) * 2 powi (e - 52)"
      by (rule power_int_add) simp
    finally have "(2::real) powi j = 2 ^ nat (j - (e - 52)) * q"
      by (simp only: power_int_of_nat q_def)
    then have "real_of_int k * 2 powi j = real_of_int t * q"
      by (simp add: t_def)
    then have "\<bar>real_of_int k * 2 powi j - x\<bar> = \<bar>real_of_int t - m\<bar> * q"
      using d[of t] by simp
    moreover have "\<bar>real_of_int n - m\<bar> * q \<le> \<bar>real_of_int t - m\<bar> * q"
      using nearest_integer[OF nm, of t] q0 by (intro mult_right_mono) simp_all
    ultimately show ?thesis using d[of n] by (simp add: q_def)
  next
    case False
    then have j: "j \<le> e - 53" by simp
    have "(2::real) powi j \<le> 2 powi (e - 53)"
      using j by (intro power_int_increasing) simp_all
    moreover have "\<bar>real_of_int k\<bar> \<le> 2 ^ 53"
      using k by (metis of_int_abs of_int_le_iff of_int_numeral of_int_power)
    ultimately have "\<bar>real_of_int k\<bar> * 2 powi j \<le> 2 ^ 53 * 2 powi (e - 53)"
      by (intro mult_mono) (simp_all add: zero_less_power_int less_imp_le)
    also have "\<dots> = 2 powi e"
    proof -
      have "(2::real) powi e = 2 powi (53 + (e - 53))" by simp
      also have "\<dots> = 2 powi 53 * 2 powi (e - 53)" by (rule power_int_add) simp
      finally show ?thesis by simp
    qed
    finally have "\<bar>real_of_int k * 2 powi j\<bar> \<le> 2 powi e"
      by (simp add: abs_mult zero_less_power_int less_imp_le)
    then have y: "real_of_int k * 2 powi j \<le> 2 powi e" by linarith
    have "\<bar>real_of_int n * q - x\<bar> \<le> \<bar>real_of_int (2 ^ 52) - m\<bar> * q"
      unfolding d using nearest_integer[OF nm, of "2 ^ 52"] q0 by (intro mult_right_mono) simp_all
    also have "\<dots> = \<bar>real_of_int (2 ^ 52) * q - x\<bar>" by (rule d[symmetric])
    also have "\<dots> = x - 2 powi e" using lo qe by simp
    also have "\<dots> \<le> \<bar>real_of_int k * 2 powi j - x\<bar>" using y lo by linarith
    finally show ?thesis by (simp add: q_def)
  qed
qed

lemma int_truediv_correct:
  assumes b: "0 < b" and hi: "real a / real b < 2 ^ 1023"
    and lo: "a = 0 \<or> 1 / 2 ^ 1022 \<le> real a / real b"
  shows "\<exists>r. int_truediv a b = Inr r \<and> is_double r
           \<and> (\<forall>y. is_double y \<longrightarrow> \<bar>r - real a / real b\<bar> \<le> \<bar>y - real a / real b\<bar>)
           \<and> \<bar>r - real a / real b\<bar> \<le> real a / real b / 2 ^ 53"
proof (cases "a = 0")
  case True
  have "is_double 0"
    unfolding is_double_def by (intro exI[of _ 0]) simp
  with True b show ?thesis by (simp add: int_truediv_def)
next
  case False
  then have a: "0 < a" by simp
  define x where "x = real a / real b"
  define e where "e = binary_exponent a b"
  note be = binary_exponent_bounds[OF a b, folded x_def e_def]
  have p1023: "(2::real) powi 1023 = 2 ^ 1023"
    by (simp add: power_int_def)
  have m1022: "(2::real) powi (- 1022) = 1 / 2 ^ 1022"
    by (simp add: power_int_def field_simps)
  have e_hi: "e \<le> 1022"
  proof (rule ccontr)
    assume "\<not> e \<le> 1022"
    then have "(2::real) powi 1023 \<le> 2 powi e"
      by (intro power_int_increasing) simp_all
    with be(1) hi show False unfolding x_def[symmetric] p1023 by linarith
  qed
  have e_lo: "- 1022 \<le> e"
  proof (rule ccontr)
    assume "\<not> - 1022 \<le> e"
    then have "(2::real) powi (e + 1) \<le> 2 powi (- 1022)"
      by (intro power_int_increasing) simp_all
    with be(2) lo False show False unfolding x_def[symmetric] m1022 by linarith
  qed
  define n where "n = (if e \<le> 52 then round_half_even (int a * 2 ^ nat (52 - e)) (int b)
                       else round_half_even (int a) (int b * 2 ^ nat (e - 52)))"
  define r where "r = real_of_int n * 2 powi (e - 52)"
  have near: "\<bar>real_of_int n - x / 2 powi (e - 52)\<bar> \<le> 1 / 2"
    unfolding n_def x_def by (rule scaled_quotient[OF a b])
  note rp = rounded_properties[OF be near, folded r_def]
  have q0: "(0::real) < 2 powi (e - 52)" by (simp add: zero_less_power_int)
  have top: "r \<le> 2 powi (e + 1)"
  proof -
    have "real_of_int n \<le> 2 ^ 53"
      using rp(2) by (metis of_int_le_iff of_int_numeral of_int_power)
    then have "r \<le> 2 ^ 53 * 2 powi (e - 52)"
      unfolding r_def using q0 by (intro mult_right_mono) simp_all
    also have "\<dots> = 2 powi (53 + (e - 52))"
      using power_int_add[of "2::real" 53 "e - 52"] by simp
    also have "\<dots> = 2 powi (e + 1)"
      by (rule arg_cong[where f = "\<lambda>i. 2 powi i"]) simp
    finally show ?thesis .
  qed
  have no_overflow: "\<not> 2 ^ 1024 \<le> r"
  proof -
    have "(2::real) powi (e + 1) \<le> 2 powi 1023"
      using e_hi by (intro power_int_increasing) simp_all
    with top have "r \<le> 2 ^ 1023" unfolding p1023 by linarith
    moreover have "(2::real) ^ 1023 < 2 ^ 1024" by simp
    ultimately show ?thesis by linarith
  qed
  have res: "int_truediv a b = Inr r"
    using False b e_lo no_overflow
    by (simp add: int_truediv_def Let_def e_def[symmetric] max_absorb1 n_def[symmetric]
          r_def[symmetric])
  have dbl: "is_double r"
  proof (cases "n = 2 ^ 53")
    case True
    have "r = 2 ^ 53 * 2 powi (e - 52)" by (simp add: r_def True)
    also have "\<dots> = 2 ^ 52 * (2 powi 1 * 2 powi (e - 52))" by simp
    also have "2 powi 1 * 2 powi (e - 52) = (2::real) powi (1 + (e - 52))"
      by (rule power_int_add[symmetric]) simp
    also have "(2::real) powi (1 + (e - 52)) = 2 powi (e - 51)"
      by (rule arg_cong[where f = "\<lambda>i. 2 powi i"]) simp
    finally have "r = real_of_int (2 ^ 52) * 2 powi (e - 51)" by simp
    moreover have "\<bar>2 ^ 52 :: int\<bar> < 2 ^ 53" by simp
    moreover have "- 1074 \<le> e - 51" "e - 51 \<le> 971" using e_lo e_hi by simp_all
    ultimately show ?thesis unfolding is_double_def by blast
  next
    case False
    with rp(1,2) have "\<bar>n\<bar> < 2 ^ 53" by simp
    moreover have "- 1074 \<le> e - 52" "e - 52 \<le> 971" using e_lo e_hi by simp_all
    ultimately show ?thesis unfolding is_double_def r_def by blast
  qed
  have nearest: "\<forall>y. is_double y \<longrightarrow> \<bar>r - x\<bar> \<le> \<bar>y - x\<bar>"
  proof (intro allI impI)
    fix y
    assume "is_double y"
    then obtain k j where k: "\<bar>k\<bar> < 2 ^ 53" and y: "y = real_of_int k * 2 powi j"
      unfolding is_double_def by blast
    from k have "\<bar>k\<bar> \<le> 2 ^ 53" by simp
    from rp(4)[OF this, of j] show "\<bar>r - x\<bar> \<le> \<bar>y - x\<bar>" unfolding y .
  qed
  from res dbl nearest rp(3) show ?thesis unfolding x_def by blast
qed

lemma sum_list_bound:
  fixes f :: "'a \<Rightarrow> nat"
  assumes "\<forall>x\<in>set xs. f x < m"
  shows "sum_list (map f xs) \<le> length xs * m"
  using assms by (induction xs) (auto simp: less_imp_le add_mono)

lemma minimum_Min: "xs \<noteq> [] \<Longrightarrow> minimum xs = Some (Min (set xs))"
  by (cases xs) (simp_all add: Min.set_eq_fold[symmetric])

lemma maximum_Max: "xs \<noteq> [] \<Longrightarrow> maximum xs = Some (Max (set xs))"
  by (cases xs) (simp_all add: Max.set_eq_fold[symmetric])

lemma stats_nonempty:
  assumes "entries st \<noteq> []"
  shows "stats st =
     (case int_truediv (\<Sum>(site, r)\<leftarrow>entries st. length (password r)) (length (entries st)) of
        Inl e \<Rightarrow> Inl e
      | Inr avg_len \<Rightarrow>
          Inr \<lparr>entry_count = length (entries st),
               oldest = Some (Min ((\<lambda>(site, r). last_updated r) ` set (entries st))),
               newest = Some (Max ((\<lambda>(site, r). last_updated r) ` set (entries st))),
               avg_password_length = avg_len\<rparr>)"
proof -
  have mn: "minimum (map (\<lambda>(site, r). last_updated r) (entries st))
              = Some (Min ((\<lambda>(site, r). last_updated r) ` set (entries st)))"
    using assms by (simp add: minimum_Min)
  have mx: "maximum (map (\<lambda>(site, r). last_updated r) (entries st))
              = Some (Max ((\<lambda>(site, r). last_updated r) ` set (entries st)))"
    using assms by (simp add: maximum_Max)
  show ?thesis
    unfolding stats_def Let_def mn mx using assms by simp
qed

text \<open>
  C9, as stated: on a store that is not empty, \<open>avg_password_length\<close> is the
  arithmetic mean of the password lengths. For the lengths 1, 1 and 2 the mean is
  4/3, and \<open>stats\<close> returns the float 1.3333333333333333, which is
  6004799503160661 / 4503599627370496.
\<close>

theorem stats_mean_counterexample:
  "stats thirds_store
     = Inr \<lparr>entry_count = 3, oldest = Some ''2025-09-03T08:00:00Z'',
            newest = Some ''2025-09-05T09:30:00Z'',
            avg_password_length = 6004799503160661 / 4503599627370496\<rparr>
   \<and> real (\<Sum>(site, r)\<leftarrow>entries thirds_store. length (password r))
        / real (length (entries thirds_store)) = 4 / 3
   \<and> (6004799503160661 / 4503599627370496 :: real) \<noteq> 4 / 3"
  by code_simp

text \<open>
  C9, amended. On a store without entries \<open>stats\<close> returns count 0, oldest and newest
  \<open>None\<close> and the average 0.0. On a store with entries, the number of entries and the
  length of every password being below \<open>2 ^ 63\<close> as every size in Python is, \<open>stats\<close>
  returns (it does not raise): the count is the number of entries, oldest and newest
  are the least and the greatest \<open>last_updated\<close> string in the lexicographic order,
  and \<open>avg_password_length\<close> is a float nearest to the arithmetic mean of the password
  lengths: it is a binary64 value, no binary64 value is nearer to the mean, and it
  differs from the mean by at most the mean divided by \<open>2 ^ 53\<close>.
\<close>

theorem stats_spec:
  "(entries st = [] \<longrightarrow>
      stats st
        = Inr \<lparr>entry_count = 0, oldest = None, newest = None, avg_password_length = 0\<rparr>)
   \<and> (entries st \<noteq> [] \<and> length (entries st) < 2 ^ 63
        \<and> (\<forall>(site, r)\<in>set (entries st). length (password r) < 2 ^ 63) \<longrightarrow>
        (\<exists>res. stats st = Inr res
           \<and> entry_count res = length (entries st)
           \<and> oldest res = Some (Min ((\<lambda>(site, r). last_updated r) ` set (entries st)))
           \<and> newest res = Some (Max ((\<lambda>(site, r). last_updated r) ` set (entries st)))
           \<and> is_double (avg_password_length res)
           \<and> (\<forall>y. is_double y \<longrightarrow>
                 \<bar>avg_password_length res
                    - real (\<Sum>(site, r)\<leftarrow>entries st. length (password r))
                        / real (length (entries st))\<bar>
                 \<le> \<bar>y - real (\<Sum>(site, r)\<leftarrow>entries st. length (password r))
                          / real (length (entries st))\<bar>)
           \<and> \<bar>avg_password_length res
                 - real (\<Sum>(site, r)\<leftarrow>entries st. length (password r))
                     / real (length (entries st))\<bar>
               \<le> real (\<Sum>(site, r)\<leftarrow>entries st. length (password r))
                     / real (length (entries st)) / 2 ^ 53))"
proof (intro conjI impI)
  assume "entries st = []"
  then show "stats st
        = Inr \<lparr>entry_count = 0, oldest = None, newest = None, avg_password_length = 0\<rparr>"
    by (simp add: stats_def)
next
  assume h: "entries st \<noteq> [] \<and> length (entries st) < 2 ^ 63
        \<and> (\<forall>(site, r)\<in>set (entries st). length (password r) < 2 ^ 63)"
  define a where "a = (\<Sum>(site, r)\<leftarrow>entries st. length (password r))"
  define b where "b = length (entries st)"
  from h have b0: "0 < b" and b63: "b < 2 ^ 63" by (simp_all add: b_def)
  from h have "\<forall>x\<in>set (entries st). (\<lambda>(site, r). length (password r)) x < 2 ^ 63"
    by (auto split: prod.splits)
  from sum_list_bound[OF this] have ab: "a \<le> b * 2 ^ 63"
    by (simp add: a_def b_def)
  have rb: "0 < real b" using b0 by simp
  have "real a \<le> real (b * 2 ^ 63)" using ab by (rule iffD2[OF of_nat_le_iff])
  then have "real a / real b \<le> 2 ^ 63" using rb by (simp add: field_simps)
  moreover have "(2::real) ^ 63 < 2 ^ 1023" by simp
  ultimately have hi: "real a / real b < 2 ^ 1023" by linarith
  have lo: "a = 0 \<or> 1 / 2 ^ 1022 \<le> real a / real b"
  proof (cases "a = 0")
    case False
    then have "1 \<le> real a" by simp
    moreover have "real b \<le> 2 ^ 63"
      using b63 by (metis less_imp_le of_nat_le_iff of_nat_numeral of_nat_power)
    ultimately have "1 / 2 ^ 63 \<le> real a / real b"
      using rb by (intro frac_le) simp_all
    moreover have "(1::real) / 2 ^ 1022 \<le> 1 / 2 ^ 63" by simp
    ultimately show ?thesis by linarith
  qed simp
  from int_truediv_correct[OF b0 hi lo] obtain v where
    v: "int_truediv a b = Inr v" "is_double v"
       "\<forall>y. is_double y \<longrightarrow> \<bar>v - real a / real b\<bar> \<le> \<bar>y - real a / real b\<bar>"
       "\<bar>v - real a / real b\<bar> \<le> real a / real b / 2 ^ 53"
    by blast
  from h have ne: "entries st \<noteq> []" by simp
  have s: "stats st
     = Inr \<lparr>entry_count = length (entries st),
            oldest = Some (Min ((\<lambda>(site, r). last_updated r) ` set (entries st))),
            newest = Some (Max ((\<lambda>(site, r). last_updated r) ` set (entries st))),
            avg_password_length = v\<rparr>"
    unfolding stats_nonempty[OF ne] a_def[symmetric] b_def[symmetric] v(1) by simp
  show "\<exists>res. stats st = Inr res
           \<and> entry_count res = length (entries st)
           \<and> oldest res = Some (Min ((\<lambda>(site, r). last_updated r) ` set (entries st)))
           \<and> newest res = Some (Max ((\<lambda>(site, r). last_updated r) ` set (entries st)))
           \<and> is_double (avg_password_length res)
           \<and> (\<forall>y. is_double y \<longrightarrow>
                 \<bar>avg_password_length res
                    - real (\<Sum>(site, r)\<leftarrow>entries st. length (password r))
                        / real (length (entries st))\<bar>
                 \<le> \<bar>y - real (\<Sum>(site, r)\<leftarrow>entries st. length (password r))
                          / real (length (entries st))\<bar>)
           \<and> \<bar>avg_password_length res
                 - real (\<Sum>(site, r)\<leftarrow>entries st. length (password r))
                     / real (length (entries st))\<bar>
               \<le> real (\<Sum>(site, r)\<leftarrow>entries st. length (password r))
                     / real (length (entries st)) / 2 ^ 53"
    unfolding a_def[symmetric] b_def[symmetric] s
    using v(2,3,4) by simp
qed

theorem stats_spec_witness:
  "stats (init_store ''2025-09-04T14:00:00Z'' ''2025-09-04T14:00:00Z'')
     = Inr \<lparr>entry_count = 0, oldest = None, newest = None, avg_password_length = 0\<rparr>
   \<and> stats search_store
       = Inr \<lparr>entry_count = 2, oldest = Some ''2025-09-03T08:00:00Z'',
              newest = Some ''2025-09-04T14:00:00Z'', avg_password_length = 9 / 2\<rparr>
   \<and> stats thirds_store
       = Inr \<lparr>entry_count = 3, oldest = Some ''2025-09-03T08:00:00Z'',
              newest = Some ''2025-09-05T09:30:00Z'',
              avg_password_length = 6004799503160661 / 4503599627370496\<rparr>
   \<and> is_double (6004799503160661 / 4503599627370496)
   \<and> \<bar>6004799503160661 / 4503599627370496 - 4 / 3\<bar> \<le> (4 / 3 :: real) / 2 ^ 53"
proof -
  have e: "entries (init_store ''2025-09-04T14:00:00Z'' ''2025-09-04T14:00:00Z'') = []"
    by (simp add: init_store_def)
  have v2: "stats search_store
       = Inr \<lparr>entry_count = 2, oldest = Some ''2025-09-03T08:00:00Z'',
              newest = Some ''2025-09-04T14:00:00Z'', avg_password_length = 9 / 2\<rparr>"
    by code_simp
  have v3: "stats thirds_store
       = Inr \<lparr>entry_count = 3, oldest = Some ''2025-09-03T08:00:00Z'',
              newest = Some ''2025-09-05T09:30:00Z'',
              avg_password_length = 6004799503160661 / 4503599627370496\<rparr>"
    by code_simp
  have m: "real (\<Sum>(site, r)\<leftarrow>entries thirds_store. length (password r))
             / real (length (entries thirds_store)) = 4 / 3"
    by (simp add: thirds_store_def)
  have h: "entries thirds_store \<noteq> [] \<and> length (entries thirds_store) < 2 ^ 63
        \<and> (\<forall>(site, r)\<in>set (entries thirds_store). length (password r) < 2 ^ 63)"
    by (simp add: thirds_store_def)
  note t0 = stats_spec[of "init_store ''2025-09-04T14:00:00Z'' ''2025-09-04T14:00:00Z''",
      THEN conjunct1, THEN mp, OF e]
  note t1 = stats_spec[of thirds_store, THEN conjunct2, THEN mp, OF h, unfolded m v3]
  from t1 have d: "is_double (6004799503160661 / 4503599627370496)"
    and n: "\<bar>6004799503160661 / 4503599627370496 - 4 / 3\<bar> \<le> (4 / 3 :: real) / 2 ^ 53"
    by auto
  show ?thesis by (rule conjI[OF t0 conjI[OF v2 conjI[OF v3 conjI[OF d n]]]])
qed

end
